theory Spec2Isabelle
  imports Main
begin

section \<open>Strings and remote errors\<close>

text \<open>
  A JavaScript string is a sequence of UTF-16 code units; \<open>length\<close>, \<open>substring\<close>,
  \<open>split\<close> and \<open>trim\<close> all count code units. A code unit is modelled as a natural
  number, so that the Turkish letters of customer names and the non-ASCII white space that
  \<open>trim\<close> removes are single elements, as they are in the program.
\<close>

type_synonym jsstring = "nat list"

definition lit :: "string \<Rightarrow> jsstring" where
  "lit s = map of_char s"

text \<open>
  The error object of a failed remote request (\<open>PostgrestError\<close>): the fields the
  program reads are \<open>code\<close> and \<open>message\<close>. The object is the parsed body of the
  answer, so the message can be missing, as \<open>handleSupabaseError\<close> provides for; a
  missing code compares like the empty text.
\<close>

record pg_error =
  code :: jsstring
  message :: "jsstring option"

text \<open>
  The exceptions the service raises. Each \<open>throw new Error(...)\<close> of
  \<open>supabaseClient.ts\<close> with a fixed message is one constructor; \<open>handleSupabaseError\<close>
  always throws, with a message normalised from the remote error, and is modelled as
  \<open>DatabaseError\<close> carrying that remote error (the wording of the normalised message is
  not modelled).
\<close>

datatype error =
    InvalidCredentials
  | DeviceNotAuthorized
  | NotFound
  | NoData
  | AlreadyRegistered
  | DatabaseError pg_error

definition handleSupabaseError :: "pg_error \<Rightarrow> error" where
  "handleSupabaseError e = DatabaseError e"

text \<open>
  The result \<open>{ data, error }\<close> of a remote request. \<open>single\<close> is the client's
  \<open>.single()\<close>: the request either fails on the way (the fault), or reaches the table,
  where exactly one selected row is the data and any other number of rows is the error
  with code \<open>PGRST116\<close>.
\<close>

record 'a response =
  resp_data :: "'a option"
  resp_error :: "pg_error option"

definition PGRST116 :: pg_error where
  "PGRST116 = \<lparr>code = lit ''PGRST116'', message = Some (lit ''no single row'')\<rparr>"

definition single :: "pg_error option \<Rightarrow> 'a list \<Rightarrow> 'a response" where
  "single fault rows =
     (case fault of
        Some e \<Rightarrow> \<lparr>resp_data = None, resp_error = Some e\<rparr>
      | None \<Rightarrow>
          (case rows of
             [r] \<Rightarrow> \<lparr>resp_data = Some r, resp_error = None\<rparr>
           | _ \<Rightarrow> \<lparr>resp_data = None, resp_error = Some PGRST116\<rparr>))"

text \<open>JavaScript truthiness of a nullable string: neither \<open>null\<close> nor empty.\<close>

fun truthy :: "jsstring option \<Rightarrow> bool" where
  "truthy None = False"
| "truthy (Some s) = (s \<noteq> [])"

text \<open>\<open>s || null\<close> on a string.\<close>

definition orNull :: "jsstring \<Rightarrow> jsstring option" where
  "orNull s = (if s = [] then None else Some s)"

section \<open>Device-bound authentication\<close>

text \<open>A row of the \<open>users\<close> table (\<open>SupabaseUser\<close>); the device column is nullable.\<close>

record supabase_user =
  user_id :: int
  username :: jsstring
  password :: jsstring
  allowed_device_id :: "jsstring option"

text \<open>The application's \<open>Credential\<close>.\<close>

record credential =
  cred_username :: jsstring
  cred_password :: jsstring
  allowedDeviceId :: jsstring

definition ANY_DEVICE :: jsstring where
  "ANY_DEVICE = lit ''ANY_DEVICE''"

text \<open>
  \<open>.update({ allowed_device_id: deviceId }).eq('username', username)\<close>: every row with
  that username gets the device.
\<close>

definition bind_device :: "jsstring \<Rightarrow> jsstring \<Rightarrow> supabase_user list \<Rightarrow> supabase_user list" where
  "bind_device uname dev tbl =
     map (\<lambda>u. if username u = uname then u\<lparr>allowed_device_id := Some dev\<rparr> else u) tbl"

text \<open>
  \<open>authenticateUser\<close>. The two faults are what the transport does to the select and to
  the update (\<open>None\<close>: the request reaches the table). The result is the returned flag
  or the exception, together with the \<open>users\<close> table afterwards. A failed update is
  only logged.
\<close>

definition authenticateUser ::
  "pg_error option \<Rightarrow> pg_error option \<Rightarrow> supabase_user list \<Rightarrow>
   jsstring \<Rightarrow> jsstring \<Rightarrow> jsstring \<Rightarrow> (error + bool) \<times> supabase_user list" where
  "authenticateUser select_fault update_fault tbl uname pw deviceId =
     (let r = single select_fault (filter (\<lambda>u. username u = uname) tbl) in
      case resp_error r of
        Some e \<Rightarrow>
          if code e = lit ''PGRST116'' then (Inl InvalidCredentials, tbl)
          else (Inl (handleSupabaseError e), tbl)
      | None \<Rightarrow>
          (case resp_data r of
             None \<Rightarrow> (Inl InvalidCredentials, tbl)
           | Some d \<Rightarrow>
               if password d \<noteq> pw then (Inl InvalidCredentials, tbl)
               else if allowed_device_id d = Some ANY_DEVICE then (Inr True, tbl)
               else if truthy (allowed_device_id d) \<and> allowed_device_id d \<noteq> Some deviceId
                 then (Inl DeviceNotAuthorized, tbl)
               else if \<not> truthy (allowed_device_id d) \<and> deviceId \<noteq> []
                 then (Inr False,
                       case update_fault of
                         None \<Rightarrow> bind_device uname deviceId tbl
                       | Some e \<Rightarrow> tbl)
               else (Inr False, tbl)))"

text \<open>
  The call among other clients. \<open>authenticateUser\<close> awaits the select and then sends
  an update that is filtered on the username only; what other clients wrote in between is
  neither seen nor checked. Here \<open>tbl\<close> is the table that the select reads and
  \<open>tbl'\<close> the table that the update meets; the result comes with the table after the
  call. \<open>authenticateUser\<close> above is the call with no write of another client in
  between.
\<close>

definition authenticateUser_interleaved ::
  "pg_error option \<Rightarrow> pg_error option \<Rightarrow> supabase_user list \<Rightarrow> supabase_user list \<Rightarrow>
   jsstring \<Rightarrow> jsstring \<Rightarrow> jsstring \<Rightarrow> (error + bool) \<times> supabase_user list" where
  "authenticateUser_interleaved select_fault update_fault tbl tbl' uname pw deviceId =
     (let r = single select_fault (filter (\<lambda>u. username u = uname) tbl) in
      case resp_error r of
        Some e \<Rightarrow>
          if code e = lit ''PGRST116'' then (Inl InvalidCredentials, tbl')
          else (Inl (handleSupabaseError e), tbl')
      | None \<Rightarrow>
          (case resp_data r of
             None \<Rightarrow> (Inl InvalidCredentials, tbl')
           | Some d \<Rightarrow>
               if password d \<noteq> pw then (Inl InvalidCredentials, tbl')
               else if allowed_device_id d = Some ANY_DEVICE then (Inr True, tbl')
               else if truthy (allowed_device_id d) \<and> allowed_device_id d \<noteq> Some deviceId
                 then (Inl DeviceNotAuthorized, tbl')
               else if \<not> truthy (allowed_device_id d) \<and> deviceId \<noteq> []
                 then (Inr False,
                       case update_fault of
                         None \<Rightarrow> bind_device uname deviceId tbl'
                       | Some e \<Rightarrow> tbl')
               else (Inr False, tbl')))"

text \<open>
  \<open>updateCredential\<close>, the admin edit: every row with the original username is
  overwritten; an empty device is stored as \<open>null\<close>. The function then returns
  \<open>getCredentials()\<close>; the model returns the table.
\<close>

definition updateCredential ::
  "pg_error option \<Rightarrow> supabase_user list \<Rightarrow> jsstring \<Rightarrow> credential \<Rightarrow>
   (error + unit) \<times> supabase_user list" where
  "updateCredential fault tbl originalUsername c =
     (case fault of
        Some e \<Rightarrow> (Inl (handleSupabaseError e), tbl)
      | None \<Rightarrow>
          (Inr (),
           map (\<lambda>u. if username u = originalUsername
                     then u\<lparr>username := cred_username c, password := cred_password c,
                            allowed_device_id := orNull (allowedDeviceId c)\<rparr>
                     else u) tbl))"

text \<open>
  A device column holds a concrete device when it is neither \<open>null\<close>, nor empty, nor
  the sentinel.
\<close>

definition concrete_device :: "jsstring option \<Rightarrow> bool" where
  "concrete_device a = (truthy a \<and> a \<noteq> Some ANY_DEVICE)"

section \<open>Splitting, joining and trimming\<close>

text \<open>
  \<open>s.split(sep)\<close> for a one-character separator: the pieces between the occurrences
  of the separator, of which there is always at least one.
\<close>

fun split_on :: "nat \<Rightarrow> jsstring \<Rightarrow> jsstring list" where
  "split_on sep [] = [[]]"
| "split_on sep (c # cs) =
     (if c = sep then [] # split_on sep cs
      else (case split_on sep cs of
              [] \<Rightarrow> [[c]]
            | p # ps \<Rightarrow> (c # p) # ps))"

text \<open>\<open>parts.join(sep)\<close>.\<close>

fun join :: "jsstring \<Rightarrow> jsstring list \<Rightarrow> jsstring" where
  "join sep [] = []"
| "join sep [p] = p"
| "join sep (p # q # ps) = p @ sep @ join sep (q # ps)"

text \<open>
  The code units that \<open>trim\<close> removes: the white space and line terminators of
  ECMAScript.
\<close>

definition isWhiteSpace :: "nat \<Rightarrow> bool" where
  "isWhiteSpace c =
     (c \<in> {9, 10, 11, 12, 13, 32, 160, 5760, 8232, 8233, 8239, 8287, 12288, 65279} \<or>
      (8192 \<le> c \<and> c \<le> 8202))"

definition trim :: "jsstring \<Rightarrow> jsstring" where
  "trim s = rev (dropWhile isWhiteSpace (rev (dropWhile isWhiteSpace s)))"

text \<open>
  \<open>c.replace(/^"|"$/g, '')\<close>: a double quote at the start and a double quote at the
  end are removed (one quote alone is removed once).
\<close>

definition strip_quotes :: "jsstring \<Rightarrow> jsstring" where
  "strip_quotes s =
     (let s1 = (case s of [] \<Rightarrow> [] | c # cs \<Rightarrow> if c = 34 then cs else s)
      in if s1 \<noteq> [] \<and> last s1 = 34 then butlast s1 else s1)"

text \<open>
  \<open>text.split(/\r?\n/)\<close>: the text is cut at every line feed, and a carriage return
  right before the line feed goes with it.
\<close>

fun split_lines :: "jsstring \<Rightarrow> jsstring list" where
  "split_lines [] = [[]]"
| "split_lines (c # cs) =
     (if c = 10 then [] # split_lines cs
      else if c = 13 \<and> cs \<noteq> [] \<and> hd cs = 10 then [] # split_lines (tl cs)
      else (case split_lines cs of
              [] \<Rightarrow> [[c]]
            | l # ls \<Rightarrow> (c # l) # ls))"

section \<open>Time and holiday access gate\<close>

text \<open>
  What \<open>isWithinWorkingHours\<close> reads of \<open>new Date()\<close>, in local time: the year, the
  month (counted from 0), the day of the month, the day of the week and the hour.
  \<open>getDay\<close> numbers the days of the week from Sunday = 0 to Saturday = 6.
\<close>

datatype weekday = Sunday | Monday | Tuesday | Wednesday | Thursday | Friday | Saturday

record date_time =
  getFullYear :: nat
  getMonth :: nat
  getDate :: nat
  weekday :: weekday
  getHours :: nat
  getMinutes :: nat

fun day_number :: "weekday \<Rightarrow> nat" where
  "day_number Sunday = 0"
| "day_number Monday = 1"
| "day_number Tuesday = 2"
| "day_number Wednesday = 3"
| "day_number Thursday = 4"
| "day_number Friday = 5"
| "day_number Saturday = 6"

definition getDay :: "date_time \<Rightarrow> nat" where
  "getDay now = day_number (weekday now)"

text \<open>\<open>String(n)\<close> for a non-negative integer: its decimal digits.\<close>

fun decimal :: "nat \<Rightarrow> jsstring" where
  "decimal n = (if n < 10 then [48 + n] else decimal (n div 10) @ [48 + n mod 10])"

definition padStart :: "nat \<Rightarrow> nat \<Rightarrow> jsstring \<Rightarrow> jsstring" where
  "padStart targetLength c s = replicate (targetLength - length s) c @ s"

text \<open>The official holidays of 2024 to 2030, as the source lists them.\<close>

definition publicHolidays :: "jsstring list" where
  "publicHolidays = map lit
     [''2024-01-01'', ''2024-04-09'', ''2024-04-10'', ''2024-04-11'', ''2024-04-12'',
      ''2024-04-23'', ''2024-05-01'', ''2024-05-19'', ''2024-06-15'', ''2024-06-16'',
      ''2024-06-17'', ''2024-06-18'', ''2024-06-19'', ''2024-07-15'', ''2024-08-30'',
      ''2024-10-29'', ''2025-01-01'', ''2025-03-29'', ''2025-03-30'', ''2025-03-31'',
      ''2025-04-01'', ''2025-04-23'', ''2025-05-01'', ''2025-05-19'', ''2025-06-05'',
      ''2025-06-06'', ''2025-06-07'', ''2025-06-08'', ''2025-06-09'', ''2025-07-15'',
      ''2025-08-30'', ''2025-10-29'', ''2026-01-01'', ''2026-03-19'', ''2026-03-20'',
      ''2026-03-21'', ''2026-03-22'', ''2026-04-23'', ''2026-05-01'', ''2026-05-19'',
      ''2026-05-26'', ''2026-05-27'', ''2026-05-28'', ''2026-05-29'', ''2026-05-30'',
      ''2026-07-15'', ''2026-08-30'', ''2026-10-29'', ''2027-01-01'', ''2027-03-08'',
      ''2027-03-09'', ''2027-03-10'', ''2027-03-11'', ''2027-04-23'', ''2027-05-01'',
      ''2027-05-15'', ''2027-05-16'', ''2027-05-17'', ''2027-05-18'', ''2027-05-19'',
      ''2027-07-15'', ''2027-08-30'', ''2027-10-29'', ''2028-01-01'', ''2028-02-26'',
      ''2028-02-27'', ''2028-02-28'', ''2028-04-23'', ''2028-05-01'', ''2028-05-05'',
      ''2028-05-06'', ''2028-05-07'', ''2028-05-08'', ''2028-05-09'', ''2028-05-19'',
      ''2028-07-15'', ''2028-08-30'', ''2028-10-29'', ''2029-01-01'', ''2029-02-14'',
      ''2029-02-15'', ''2029-02-16'', ''2029-02-17'', ''2029-04-23'', ''2029-04-24'',
      ''2029-04-25'', ''2029-04-26'', ''2029-04-27'', ''2029-04-28'', ''2029-05-01'',
      ''2029-05-19'', ''2029-07-15'', ''2029-08-30'', ''2029-10-29'', ''2030-01-01'',
      ''2030-02-03'', ''2030-02-04'', ''2030-02-05'', ''2030-02-06'', ''2030-04-13'',
      ''2030-04-14'', ''2030-04-15'', ''2030-04-16'', ''2030-04-17'', ''2030-04-23'',
      ''2030-05-01'', ''2030-05-19'', ''2030-07-15'', ''2030-08-30'', ''2030-10-29'']"

definition formattedDate :: "date_time \<Rightarrow> jsstring" where
  "formattedDate now =
     decimal (getFullYear now) @ lit ''-'' @
     padStart 2 48 (decimal (getMonth now + 1)) @ lit ''-'' @
     padStart 2 48 (decimal (getDate now))"

definition isWithinWorkingHours :: "date_time \<Rightarrow> bool" where
  "isWithinWorkingHours now =
     (if getDate now > 20 then False
      else if getDay now = 0 \<or> getDay now = 6 then False
      else if getHours now < 8 \<or> getHours now \<ge> 18 then False
      else if formattedDate now \<in> set publicHolidays then False
      else True)"

declare decimal.simps [simp del]

text \<open>
  Vocabulary for the claim about the gate. The date that a text \<open>YYYY-MM-DD\<close> names:
  its three parts, cut at the hyphens, read as decimal numbers. The dates that the holiday
  set names. The text that \<open>formattedDate\<close> builds from a year, a month (counted from
  1) and a day.
\<close>

definition digits_value :: "jsstring \<Rightarrow> nat" where
  "digits_value s = foldl (\<lambda>acc c. 10 * acc + (c - 48)) 0 s"

definition date_of_text :: "jsstring \<Rightarrow> nat \<times> nat \<times> nat" where
  "date_of_text s =
     (case split_on 45 s of
        [y, m, d] \<Rightarrow> (digits_value y, digits_value m, digits_value d)
      | _ \<Rightarrow> (0, 0, 0))"

definition holiday_dates :: "(nat \<times> nat \<times> nat) list" where
  "holiday_dates = map date_of_text publicHolidays"

definition date_text :: "nat \<Rightarrow> nat \<Rightarrow> nat \<Rightarrow> jsstring" where
  "date_text y m d =
     decimal y @ lit ''-'' @ padStart 2 48 (decimal m) @ lit ''-'' @ padStart 2 48 (decimal d)"

section \<open>Customers and bulk upsert\<close>

text \<open>
  The application's \<open>Customer\<close>; the coordinates are optional numeric strings.
\<close>

record customer =
  installationNumber :: jsstring
  name :: jsstring
  phone :: jsstring
  address :: jsstring
  latitude :: "jsstring option"
  longitude :: "jsstring option"

text \<open>
  A row of the \<open>customers\<close> table (\<open>SupabaseCustomer\<close>). The text columns are
  strings; the coordinates are numbers or \<open>null\<close>. JavaScript numbers are floating
  point: the type of numbers is left open (\<open>'n\<close>), and what the program does with a
  number (\<open>parseFloat\<close>, \<open>toString\<close>, truthiness) is a parameter of the function that
  does it.
\<close>

record 'n supabase_customer =
  db_id :: "int option"
  installation_number :: jsstring
  db_name :: jsstring
  db_phone :: jsstring
  db_address :: jsstring
  db_latitude :: "'n option"
  db_longitude :: "'n option"

text \<open>\<open>s.includes(sub)\<close>: \<open>sub\<close> occurs in \<open>s\<close> as a contiguous run.\<close>

fun str_includes :: "jsstring \<Rightarrow> jsstring \<Rightarrow> bool" where
  "str_includes [] sub = (sub = [])"
| "str_includes (c # cs) sub = (take (length sub) (c # cs) = sub \<or> str_includes cs sub)"

text \<open>\<open>s.replace(a, b)\<close> for one-character strings: the first occurrence only.\<close>

fun replace_first :: "nat \<Rightarrow> nat \<Rightarrow> jsstring \<Rightarrow> jsstring" where
  "replace_first a b [] = []"
| "replace_first a b (c # cs) = (if c = a then b # cs else c # replace_first a b cs)"

definition toCoordinate :: "(jsstring \<Rightarrow> 'n) \<Rightarrow> jsstring option \<Rightarrow> 'n option" where
  "toCoordinate parseFloat v =
     (case v of
        None \<Rightarrow> None
      | Some s \<Rightarrow> if s = [] then None else Some (parseFloat (replace_first 44 46 s)))"

definition toDbRow :: "(jsstring \<Rightarrow> 'n) \<Rightarrow> customer \<Rightarrow> 'n supabase_customer" where
  "toDbRow parseFloat c =
     \<lparr>db_id = None,
      installation_number = installationNumber c,
      db_name = name c,
      db_phone = phone c,
      db_address = address c,
      db_latitude = toCoordinate parseFloat (latitude c),
      db_longitude = toCoordinate parseFloat (longitude c)\<rparr>"

text \<open>
  What one \<open>upsert\<close> request of a chunk does: it is stored, or the store answers with an
  error object, or the call throws (with the exception's message).
\<close>

datatype upsert_outcome = Upserted | Rejected pg_error | Threw jsstring

text \<open>
  The \<open>error\<close> field of the result: \<open>null\<close>, the message of the last failed chunk
  (which is \<open>undefined\<close> for an error object without one), the message of the
  \<open>TypeError\<close> that reading \<open>includes\<close> of a missing message throws, or the fixed
  text of the write-permission abort.
\<close>

datatype bulk_error =
    NoError
  | LastMessage "jsstring option"
  | IncludesOfUndefined
  | WritePermissionDenied

record bulk_result =
  success :: int
  errorCount :: int
  error :: bulk_error

definition CHUNK_SIZE :: nat where
  "CHUNK_SIZE = 200"

text \<open>
  The row-level-security test of \<open>bulkUpsertCustomers\<close> on an error object:
  \<open>error.code === '42501' || error.message.includes('row-level security')\<close>. Its
  value, when it has one: on an error object with another code and no message the second
  operand throws.
\<close>

definition isPermissionError :: "pg_error \<Rightarrow> bool" where
  "isPermissionError e =
     (code e = lit ''42501'' \<or>
      (case message e of
         None \<Rightarrow> False
       | Some m \<Rightarrow> str_includes m (lit ''row-level security'')))"

definition permissionTestThrows :: "pg_error \<Rightarrow> bool" where
  "permissionTestThrows e = (code e \<noteq> lit ''42501'' \<and> message e = None)"

text \<open>
  The loop of \<open>bulkUpsertCustomers\<close>, from index \<open>i\<close> with the running totals. The
  remote store is the function \<open>upsert\<close>, from the start index and the chunk to the
  outcome of its request. The last component collects the calls of \<open>onProgress\<close>:
  (processed, total, errors so far). For an error object the chunk is counted and the
  message kept before the permission test; when the test throws, the \<open>catch\<close> counts
  the chunk once more and keeps the message of the exception.
\<close>

function bulk_loop ::
  "(nat \<Rightarrow> 'r list \<Rightarrow> upsert_outcome) \<Rightarrow> 'r list \<Rightarrow> nat \<Rightarrow> int \<Rightarrow> int \<Rightarrow> bulk_error \<Rightarrow>
   (nat \<times> nat \<times> int) list \<Rightarrow> bulk_result \<times> (nat \<times> nat \<times> int) list" where
  "bulk_loop upsert dbRows i totalSuccess totalErrors lastError progress =
     (if i < length dbRows then
        (let chunk = take CHUNK_SIZE (drop i dbRows);
             processed = (if i + length chunk > length dbRows then length dbRows
                          else i + length chunk)
         in case upsert i chunk of
              Upserted \<Rightarrow>
                bulk_loop upsert dbRows (i + CHUNK_SIZE)
                  (totalSuccess + int (length chunk)) totalErrors lastError
                  (progress @ [(processed, length dbRows, totalErrors)])
            | Rejected e \<Rightarrow>
                if permissionTestThrows e
                then bulk_loop upsert dbRows (i + CHUNK_SIZE)
                  totalSuccess (totalErrors + int (length chunk) + int (length chunk))
                  IncludesOfUndefined
                  (progress @ [(processed, length dbRows,
                                totalErrors + int (length chunk) + int (length chunk))])
                else if isPermissionError e
                then (\<lparr>success = totalSuccess,
                       errorCount = int (length dbRows) - totalSuccess,
                       error = WritePermissionDenied\<rparr>, progress)
                else bulk_loop upsert dbRows (i + CHUNK_SIZE)
                  totalSuccess (totalErrors + int (length chunk)) (LastMessage (message e))
                  (progress @ [(processed, length dbRows, totalErrors + int (length chunk))])
            | Threw m \<Rightarrow>
                bulk_loop upsert dbRows (i + CHUNK_SIZE)
                  totalSuccess (totalErrors + int (length chunk)) (LastMessage (Some m))
                  (progress @ [(processed, length dbRows, totalErrors + int (length chunk))]))
      else (\<lparr>success = totalSuccess, errorCount = totalErrors, error = lastError\<rparr>, progress))"
  by pat_completeness auto
termination
  by (relation "measure (\<lambda>(upsert, dbRows, i, rest). length dbRows - i)")
    (auto simp: CHUNK_SIZE_def)

declare bulk_loop.simps [simp del]

definition bulkUpsertCustomers ::
  "(nat \<Rightarrow> 'n supabase_customer list \<Rightarrow> upsert_outcome) \<Rightarrow> (jsstring \<Rightarrow> 'n) \<Rightarrow>
   customer list \<Rightarrow> bulk_result \<times> (nat \<times> nat \<times> int) list" where
  "bulkUpsertCustomers upsert parseFloat customers =
     (if customers = [] then (\<lparr>success = 0, errorCount = 0, error = NoError\<rparr>, [])
      else bulk_loop upsert (map (toDbRow parseFloat) customers) 0 0 0 NoError [])"

text \<open>
  Vocabulary for the claims about the import: the \<open>k\<close>-th chunk of the rows, the outcome
  of its request, whether that outcome is the write-permission failure, and the number of
  chunks.
\<close>

definition chunk_at :: "'r list \<Rightarrow> nat \<Rightarrow> 'r list" where
  "chunk_at rows k = take CHUNK_SIZE (drop (k * CHUNK_SIZE) rows)"

definition outcome_at :: "(nat \<Rightarrow> 'r list \<Rightarrow> upsert_outcome) \<Rightarrow> 'r list \<Rightarrow> nat \<Rightarrow> upsert_outcome" where
  "outcome_at upsert rows k = upsert (k * CHUNK_SIZE) (chunk_at rows k)"

fun fatal :: "upsert_outcome \<Rightarrow> bool" where
  "fatal (Rejected e) = isPermissionError e"
| "fatal _ = False"

text \<open>
  An outcome whose error object, if any, lets the permission test of the loop return a
  value: it carries a message, or the code of the permission error.
\<close>

fun testable :: "upsert_outcome \<Rightarrow> bool" where
  "testable (Rejected e) = (\<not> permissionTestThrows e)"
| "testable _ = True"

definition chunk_count :: "'r list \<Rightarrow> nat" where
  "chunk_count rows = (length rows + CHUNK_SIZE - 1) div CHUNK_SIZE"

text \<open>
  The records of the chunks \<open>m \<le> j < k\<close> whose request was stored, and of those whose
  request failed.
\<close>

definition stored_between ::
  "(nat \<Rightarrow> 'r list \<Rightarrow> upsert_outcome) \<Rightarrow> 'r list \<Rightarrow> nat \<Rightarrow> nat \<Rightarrow> int" where
  "stored_between upsert rows m k =
     (\<Sum>j \<leftarrow> [m..<k]. if outcome_at upsert rows j = Upserted
                      then int (length (chunk_at rows j)) else 0)"

definition failed_between ::
  "(nat \<Rightarrow> 'r list \<Rightarrow> upsert_outcome) \<Rightarrow> 'r list \<Rightarrow> nat \<Rightarrow> nat \<Rightarrow> int" where
  "failed_between upsert rows m k =
     (\<Sum>j \<leftarrow> [m..<k]. if outcome_at upsert rows j = Upserted
                      then 0 else int (length (chunk_at rows j)))"

text \<open>The first component of a call of \<open>onProgress\<close>, for the chunk that starts at \<open>i\<close>.\<close>

definition processed_upto :: "'r list \<Rightarrow> nat \<Rightarrow> nat" where
  "processed_upto dbRows i =
     (if i + length (take CHUNK_SIZE (drop i dbRows)) > length dbRows then length dbRows
      else i + length (take CHUNK_SIZE (drop i dbRows)))"

section \<open>Masking of customer names\<close>

text \<open>The function mapped over the parts of the name in \<open>maskName\<close>.\<close>

definition maskPart :: "jsstring \<Rightarrow> jsstring" where
  "maskPart part = (if length part \<le> 2 then part else take 2 part @ lit ''***'')"

definition maskName :: "bool \<Rightarrow> jsstring \<Rightarrow> jsstring" where
  "maskName isUnrestricted fullName =
     (if isUnrestricted then fullName
      else join (lit '' '') (map maskPart (split_on 32 fullName)))"

section \<open>Usage statistics\<close>

text \<open>
  A row of \<open>search_logs\<close> as the statistics read it: the username (a nullable column)
  and \<open>created_at\<close>, given as the time value of \<open>new Date(log.created_at)\<close> in
  milliseconds. A row of \<open>user_stats_view\<close>, and the \<open>UserActivityStat\<close> that is
  returned.
\<close>

record search_log =
  log_username :: "jsstring option"
  log_installation_number :: jsstring
  created_at :: int

record stats_view_row =
  view_username :: jsstring
  query_count :: "nat option"
  last_login :: "int option"

record user_activity_stat =
  stat_username :: jsstring
  queryCount :: nat
  lastLogin :: jsstring

text \<open>The text shown for a user who never logged in (\<open>Giri\<close>+U+015F+\<open> Yapmad\<close>+U+0131).\<close>

definition NEVER_LOGGED_IN :: jsstring where
  "NEVER_LOGGED_IN = lit ''Giri'' @ [351] @ lit '' Yapmad'' @ [305]"

text \<open>
  The display form of a date: \<open>toLocaleDateString('tr-TR')\<close>, a space, and
  \<open>toLocaleTimeString('tr-TR', ...)\<close>. The two depend on the time zone of the
  browser and are parameters.
\<close>

definition formatDate :: "(int \<Rightarrow> jsstring) \<Rightarrow> (int \<Rightarrow> jsstring) \<Rightarrow> int \<Rightarrow> jsstring" where
  "formatDate toLocaleDateString toLocaleTimeString t =
     toLocaleDateString t @ lit '' '' @ toLocaleTimeString t"

text \<open>
  The object \<open>stats\<close> of the fallback is a plain object: its own keys in the order of
  their insertion, and the entry \<open>{ count, lastLoginDate }\<close> of each own key. A lookup
  \<open>stats[username]\<close> that finds no own key goes on to \<open>Object.prototype\<close>, whose
  properties are functions, and for \<open>__proto__\<close> the prototype itself: all truthy.
  \<open>prototype_dated\<close> says whether \<open>Object.prototype\<close> has a property
  \<open>lastLoginDate\<close>, which a row named \<open>__proto__\<close> leaves there (together with a
  \<open>count\<close> that is not a number, and so falsy); the prototype outlives the call.
\<close>

record stats_object =
  stat_keys :: "jsstring list"
  stat_entries :: "jsstring \<rightharpoonup> nat \<times> int option"
  prototype_dated :: bool

definition empty_stats :: "bool \<Rightarrow> stats_object" where
  "empty_stats dated = \<lparr>stat_keys = [], stat_entries = Map.empty, prototype_dated = dated\<rparr>"

definition OBJECT_PROTOTYPE_NAMES :: "jsstring list" where
  "OBJECT_PROTOTYPE_NAMES = map lit
     [''constructor'', ''__defineGetter__'', ''__defineSetter__'', ''hasOwnProperty'',
      ''__lookupGetter__'', ''__lookupSetter__'', ''isPrototypeOf'',
      ''propertyIsEnumerable'', ''toString'', ''valueOf'', ''__proto__'',
      ''toLocaleString'']"

text \<open>The names under which a plain object without own keys finds a truthy value.\<close>

definition inherited :: "bool \<Rightarrow> jsstring \<Rightarrow> bool" where
  "inherited dated u =
     (u \<in> set OBJECT_PROTOTYPE_NAMES \<or> (dated \<and> u = lit ''lastLoginDate''))"

text \<open>
  The body of \<open>logs.forEach\<close>. A row without a username is skipped. For a username
  under which the lookup finds an inherited value, no entry is made: the count and the
  date are set on that inherited object.
\<close>

definition count_log :: "stats_object \<Rightarrow> search_log \<Rightarrow> stats_object" where
  "count_log stats log =
     (case log_username log of
        None \<Rightarrow> stats
      | Some u \<Rightarrow>
          if u = [] then stats
          else
            (case stat_entries stats u of
               None \<Rightarrow>
                 if inherited (prototype_dated stats) u
                 then stats\<lparr>prototype_dated := (prototype_dated stats \<or> u = lit ''__proto__'')\<rparr>
                 else stats\<lparr>stat_keys := stat_keys stats @ [u],
                            stat_entries := (stat_entries stats)(u \<mapsto> (1, Some (created_at log)))\<rparr>
             | Some en \<Rightarrow>
                 (let logDate = created_at log;
                      lastLoginDate =
                        (case snd en of
                           None \<Rightarrow> Some logDate
                         | Some d \<Rightarrow> if logDate > d then Some logDate else Some d)
                  in stats\<lparr>stat_entries :=
                       (stat_entries stats)(u \<mapsto> (fst en + 1, lastLoginDate))\<rparr>)))"

text \<open>
  \<open>Object.keys\<close>: the own keys that are array indices (the decimal form of a number
  below \<open>2^32 - 1\<close>) in ascending numeric order, then the other keys in the order of
  their insertion.
\<close>

definition is_array_index :: "jsstring \<Rightarrow> bool" where
  "is_array_index k =
     (k \<noteq> [] \<and> list_all (\<lambda>c. 48 \<le> c \<and> c \<le> 57) k \<and> (k = [48] \<or> hd k \<noteq> 48) \<and>
      digits_value k < 4294967295)"

definition object_keys :: "jsstring list \<Rightarrow> jsstring list" where
  "object_keys keys =
     sort_key digits_value (filter is_array_index keys) @
     filter (\<lambda>k. \<not> is_array_index k) keys"

definition stat_of_entry ::
  "(int \<Rightarrow> jsstring) \<Rightarrow> (int \<Rightarrow> jsstring) \<Rightarrow> stats_object \<Rightarrow> jsstring \<Rightarrow> user_activity_stat" where
  "stat_of_entry dateStr timeStr stats u =
     (let item = (case stat_entries stats u of None \<Rightarrow> (0, None) | Some en \<Rightarrow> en)
      in \<lparr>stat_username = u,
          queryCount = fst item,
          lastLogin = (case snd item of
                         None \<Rightarrow> NEVER_LOGGED_IN
                       | Some d \<Rightarrow> formatDate dateStr timeStr d)\<rparr>)"

definition stat_of_view ::
  "(int \<Rightarrow> jsstring) \<Rightarrow> (int \<Rightarrow> jsstring) \<Rightarrow> stats_view_row \<Rightarrow> user_activity_stat" where
  "stat_of_view dateStr timeStr stat =
     \<lparr>stat_username = view_username stat,
      queryCount = (case query_count stat of None \<Rightarrow> 0 | Some n \<Rightarrow> n),
      lastLogin = (case last_login stat of
                     None \<Rightarrow> NEVER_LOGGED_IN
                   | Some d \<Rightarrow> formatDate dateStr timeStr d)\<rparr>"

text \<open>
  \<open>getUserActivityStats\<close>, from the answers of the two selects: the view, and the raw
  logs that are read only when the view gave an error or no data. \<open>dated\<close> is the state
  of \<open>Object.prototype\<close> before the call; the result comes with its state afterwards.
\<close>

definition getUserActivityStats ::
  "(int \<Rightarrow> jsstring) \<Rightarrow> (int \<Rightarrow> jsstring) \<Rightarrow> bool \<Rightarrow> stats_view_row list response \<Rightarrow>
   search_log list response \<Rightarrow> user_activity_stat list \<times> bool" where
  "getUserActivityStats dateStr timeStr dated view logs =
     (case (resp_error view, resp_data view) of
        (None, Some rows) \<Rightarrow> (map (stat_of_view dateStr timeStr) rows, dated)
      | _ \<Rightarrow>
          (case resp_error logs of
             Some logError \<Rightarrow> ([], dated)
           | None \<Rightarrow>
               (case resp_data logs of
                  None \<Rightarrow> ([], dated)
                | Some rows \<Rightarrow>
                    (let stats = foldl count_log (empty_stats dated) rows
                     in (map (stat_of_entry dateStr timeStr stats) (object_keys (stat_keys stats)),
                         prototype_dated stats)))))"

text \<open>
  Vocabulary for the claim about the fallback: the timestamps of the log rows of a user.
\<close>

definition timestamps_of :: "search_log list \<Rightarrow> jsstring \<Rightarrow> int list" where
  "timestamps_of rows u = map created_at (filter (\<lambda>r. log_username r = Some u) rows)"

section \<open>Customer lookup with cache\<close>

text \<open>
  The browser's \<open>localStorage\<close> as the cache uses it. What is stored under a key is a
  text; parsed, it is a record \<open>{ data, timestamp }\<close> as \<open>saveToCache\<close> wrote it, or
  something the cache cannot use (for which \<open>getFromCache\<close> returns \<open>null\<close>). The
  storage may refuse to be read or to be written, in which case the access throws.
\<close>

datatype stored_item = CacheRecord customer int | Unusable

record local_storage =
  items :: "jsstring \<rightharpoonup> stored_item"
  storage_readable :: bool
  storage_writable :: bool

definition CACHE_PREFIX :: jsstring where
  "CACHE_PREFIX = lit ''qs_cache_v1_''"

definition CACHE_DURATION_MS :: int where
  "CACHE_DURATION_MS = 1000 * 60 * 60 * 24"

text \<open>
  \<open>getFromCache\<close> at the clock reading \<open>now\<close>: the cached customer, if any, and the
  storage afterwards (an expired entry is removed).
\<close>

definition getFromCache :: "int \<Rightarrow> local_storage \<Rightarrow> jsstring \<Rightarrow> customer option \<times> local_storage" where
  "getFromCache now ls key =
     (if \<not> storage_readable ls then (None, ls)
      else case items ls (CACHE_PREFIX @ key) of
             None \<Rightarrow> (None, ls)
           | Some Unusable \<Rightarrow> (None, ls)
           | Some (CacheRecord data timestamp) \<Rightarrow>
               if now - timestamp > CACHE_DURATION_MS
               then (None, ls\<lparr>items := (items ls)(CACHE_PREFIX @ key := None)\<rparr>)
               else (Some data, ls))"

definition saveToCache :: "int \<Rightarrow> local_storage \<Rightarrow> jsstring \<Rightarrow> customer \<Rightarrow> local_storage" where
  "saveToCache now ls key data =
     (if \<not> storage_writable ls then ls
      else ls\<lparr>items := (items ls)(CACHE_PREFIX @ key \<mapsto> CacheRecord data now)\<rparr>)"

definition mapSupabaseCustomerToApp :: "('n \<Rightarrow> jsstring) \<Rightarrow> 'n supabase_customer \<Rightarrow> customer" where
  "mapSupabaseCustomerToApp numToString data =
     \<lparr>installationNumber = installation_number data,
      name = db_name data,
      phone = db_phone data,
      address = db_address data,
      latitude = map_option numToString (db_latitude data),
      longitude = map_option numToString (db_longitude data)\<rparr>"

text \<open>
  The state a lookup works on: the storage, and the list of the installation numbers for
  which the remote store was queried so far.
\<close>

record lookup_world =
  storage :: local_storage
  queries :: "jsstring list"

text \<open>
  \<open>findCustomerByInstallationNumber\<close>. \<open>now_read\<close> and \<open>now_write\<close> are the clock
  readings of the cache check and of the cache write, \<open>fault\<close> is what the transport
  does to the select, and \<open>tbl\<close> is the \<open>customers\<close> table.
\<close>

definition findCustomerByInstallationNumber ::
  "('n \<Rightarrow> jsstring) \<Rightarrow> int \<Rightarrow> int \<Rightarrow> pg_error option \<Rightarrow> 'n supabase_customer list \<Rightarrow>
   lookup_world \<Rightarrow> jsstring \<Rightarrow> (error + customer) \<times> lookup_world" where
  "findCustomerByInstallationNumber numToString now_read now_write fault tbl w number =
     (case getFromCache now_read (storage w) number of
        (Some cachedData, ls) \<Rightarrow> (Inr cachedData, w\<lparr>storage := ls\<rparr>)
      | (None, ls) \<Rightarrow>
          (let w1 = w\<lparr>storage := ls, queries := queries w @ [number]\<rparr>;
               r = single fault (filter (\<lambda>c. installation_number c = number) tbl)
           in case resp_error r of
                Some e \<Rightarrow>
                  if code e = lit ''PGRST116'' then (Inl NotFound, w1)
                  else (Inl (handleSupabaseError e), w1)
              | None \<Rightarrow>
                  (case resp_data r of
                     None \<Rightarrow> (Inl NoData, w1)
                   | Some data \<Rightarrow>
                       (let customer = mapSupabaseCustomerToApp numToString data
                        in (Inr customer,
                            w1\<lparr>storage := saveToCache now_write ls number customer\<rparr>)))))"

section \<open>Search and its log\<close>

text \<open>
  What the insert into \<open>search_logs\<close> does: the row is stored (with the store's
  timestamp), or the store answers with an error object, or the call throws.
\<close>

datatype insert_outcome = Inserted | InsertRejected pg_error | InsertThrew

text \<open>
  \<open>logSearchQuery\<close>: the result of the promise and the \<open>search_logs\<close> table
  afterwards. The error object of the answer is not looked at; a thrown exception is
  caught and logged.
\<close>

definition logSearchQuery ::
  "insert_outcome \<Rightarrow> int \<Rightarrow> search_log list \<Rightarrow> jsstring \<Rightarrow> jsstring \<Rightarrow>
   (error + unit) \<times> search_log list" where
  "logSearchQuery outcome db_now logs uname number =
     (case outcome of
        Inserted \<Rightarrow>
          (Inr (), logs @ [\<lparr>log_username = Some uname, log_installation_number = number,
                            created_at = db_now\<rparr>])
      | InsertRejected e \<Rightarrow> (Inr (), logs)
      | InsertThrew \<Rightarrow> (Inr (), logs))"

text \<open>The part of the state of \<open>MainScreen\<close> that a search sets.\<close>

record search_view =
  foundCustomer :: "customer option"
  search_error :: "error option"
  mapEmbedUrl :: "jsstring option"
  externalMapUrl :: "jsstring option"
  searchPerformed :: bool
  recentSearches :: "jsstring list"

definition MAX_RECENT_SEARCHES :: nat where
  "MAX_RECENT_SEARCHES = 5"

definition saveToRecents :: "jsstring \<Rightarrow> jsstring list \<Rightarrow> jsstring list" where
  "saveToRecents term recents =
     (let updated = term # filter (\<lambda>s. s \<noteq> term) recents
      in if length updated > MAX_RECENT_SEARCHES then take MAX_RECENT_SEARCHES updated
         else updated)"

text \<open>
  \<open>performSearch\<close>. The derivation of the two map links from the coordinates or the
  address is the parameter \<open>mapLinks\<close> (it parses floating point numbers and can throw
  on a malformed address). The log entry is written after the lookup, whether it
  succeeded or failed, and what happens to it is not awaited.
\<close>

definition performSearch ::
  "(customer \<Rightarrow> error + jsstring option \<times> jsstring option) \<Rightarrow>
   ('n \<Rightarrow> jsstring) \<Rightarrow> int \<Rightarrow> int \<Rightarrow> pg_error option \<Rightarrow> 'n supabase_customer list \<Rightarrow>
   insert_outcome \<Rightarrow> int \<Rightarrow> jsstring \<Rightarrow>
   search_view \<times> lookup_world \<times> search_log list \<Rightarrow> jsstring \<Rightarrow>
   search_view \<times> lookup_world \<times> search_log list" where
  "performSearch mapLinks numToString now_read now_write fault tbl log_outcome db_now uname st term =
     (case st of (view, w, logs) \<Rightarrow>
        if trim term = [] then (view, w, logs)
        else
          (let view0 = view\<lparr>searchPerformed := True, search_error := None,
                           foundCustomer := None, mapEmbedUrl := None,
                           externalMapUrl := None\<rparr>;
               logs' = snd (logSearchQuery log_outcome db_now logs uname (trim term))
           in case findCustomerByInstallationNumber numToString now_read now_write fault tbl w
                     (trim term) of
                (Inr customer, w') \<Rightarrow>
                  (let view1 = view0\<lparr>foundCustomer := Some customer,
                                  recentSearches := saveToRecents (trim term) (recentSearches view)\<rparr>
                   in case mapLinks customer of
                        Inr (embedUrl, extUrl) \<Rightarrow>
                          (view1\<lparr>mapEmbedUrl := embedUrl, externalMapUrl := extUrl\<rparr>, w', logs')
                      | Inl err \<Rightarrow> (view1\<lparr>search_error := Some err\<rparr>, w', logs'))
              | (Inl err, w') \<Rightarrow> (view0\<lparr>search_error := Some err\<rparr>, w', logs')))"

section \<open>CSV export and import\<close>

definition CSV_HEADER :: jsstring where
  "CSV_HEADER = lit ''Tesisat No; Ad Soyad; Telefon; Adres; Enlem; Boylam''"

text \<open>
  \<open>row.latitude || ''\<close>: the text of the number, or the empty text for \<open>null\<close> and
  for a number that is falsy (zero, not-a-number). Truthiness and text of a number are
  parameters.
\<close>

definition coordinateText :: "('n \<Rightarrow> bool) \<Rightarrow> ('n \<Rightarrow> jsstring) \<Rightarrow> 'n option \<Rightarrow> jsstring" where
  "coordinateText numTruthy numToString v =
     (case v of None \<Rightarrow> [] | Some n \<Rightarrow> if numTruthy n then numToString n else [])"

text \<open>The text in double quotes (code unit 34).\<close>

definition quoted :: "jsstring \<Rightarrow> jsstring" where
  "quoted s = 34 # s @ [34]"

text \<open>
  One line of the export. The name, phone and address columns are strings, on which
  \<open>x || ''\<close> is \<open>x\<close>.
\<close>

definition csvLine :: "('n \<Rightarrow> bool) \<Rightarrow> ('n \<Rightarrow> jsstring) \<Rightarrow> 'n supabase_customer \<Rightarrow> jsstring" where
  "csvLine numTruthy numToString row =
     join (lit '';'')
       [installation_number row,
        quoted (db_name row),
        db_phone row,
        quoted (db_address row),
        coordinateText numTruthy numToString (db_latitude row),
        coordinateText numTruthy numToString (db_longitude row)]"

text \<open>\<open>.select('*').limit(n)\<close> on a table.\<close>

definition select_limit :: "pg_error option \<Rightarrow> nat \<Rightarrow> 'a list \<Rightarrow> 'a list response" where
  "select_limit fault n tbl =
     (case fault of
        Some e \<Rightarrow> \<lparr>resp_data = None, resp_error = Some e\<rparr>
      | None \<Rightarrow> \<lparr>resp_data = Some (take n tbl), resp_error = None\<rparr>)"

definition exportCustomersAsCSV ::
  "('n \<Rightarrow> bool) \<Rightarrow> ('n \<Rightarrow> jsstring) \<Rightarrow> pg_error option \<Rightarrow> 'n supabase_customer list \<Rightarrow>
   error + jsstring" where
  "exportCustomersAsCSV numTruthy numToString fault tbl =
     (let r = select_limit fault 50000 tbl
      in case resp_error r of
           Some e \<Rightarrow> Inl (handleSupabaseError e)
         | None \<Rightarrow>
             (case resp_data r of
                None \<Rightarrow> Inr []
              | Some rows \<Rightarrow>
                  Inr (foldl (\<lambda>csvContent row. csvContent @ csvLine numTruthy numToString row @ [10])
                         (CSV_HEADER @ [10]) rows)))"

text \<open>\<open>cols[i] || ''\<close>: a missing column reads as the empty text.\<close>

definition col_or_empty :: "jsstring list \<Rightarrow> nat \<Rightarrow> jsstring" where
  "col_or_empty cols i = (if i < length cols then cols ! i else [])"

text \<open>
  The body of the loop of \<open>processCSV\<close> on one line: the customer it pushes, or nothing
  when the line is skipped (a blank line, or fewer than two columns).
\<close>

definition csvCustomer :: "jsstring \<Rightarrow> customer option" where
  "csvCustomer rawLine =
     (let line = trim rawLine
      in if line = [] then None
         else
           (let separator = (if str_includes line (lit '';'') then 59 else 44);
                cols = map (\<lambda>c. strip_quotes (trim c)) (split_on separator line)
            in if length cols < 2 then None
               else Some \<lparr>installationNumber = cols ! 0,
                          name = col_or_empty cols 1,
                          phone = col_or_empty cols 2,
                          address = col_or_empty cols 3,
                          latitude = Some (col_or_empty cols 4),
                          longitude = Some (col_or_empty cols 5)\<rparr>))"

text \<open>
  The list \<open>customers\<close> that \<open>processCSV\<close> builds from the text of the file. The
  first line is skipped when, in lower case, it contains \<open>tesisat\<close> or
  \<open>installation\<close>; \<open>toLowerCase\<close> is a parameter. (\<open>split\<close> always gives at least one
  line, so the first line exists.)
\<close>

definition csvCustomers :: "(jsstring \<Rightarrow> jsstring) \<Rightarrow> jsstring \<Rightarrow> customer list" where
  "csvCustomers toLowerCase csvText =
     (let lines = split_lines csvText;
          startIndex =
            (if str_includes (toLowerCase (hd lines)) (lit ''tesisat'') \<or>
                str_includes (toLowerCase (hd lines)) (lit ''installation'')
             then 1 else 0)
      in List.map_filter csvCustomer (drop startIndex lines))"

text \<open>
  \<open>processCSV\<close>: nothing is sent when no customer was read; otherwise the customers go
  to \<open>bulkUpsertCustomers\<close>, whose result is reported.
\<close>

definition processCSV ::
  "(jsstring \<Rightarrow> jsstring) \<Rightarrow> (nat \<Rightarrow> 'n supabase_customer list \<Rightarrow> upsert_outcome) \<Rightarrow>
   (jsstring \<Rightarrow> 'n) \<Rightarrow> jsstring \<Rightarrow> bulk_result option" where
  "processCSV toLowerCase upsert parseFloat csvText =
     (let customers = csvCustomers toLowerCase csvText
      in if customers = [] then None
         else Some (fst (bulkUpsertCustomers upsert parseFloat customers)))"

text \<open>
  Vocabulary for the claim about export and import. The four text fields of a customer.
  What the import makes of the four text fields of a table row: the columns that are
  exported without quotes come back trimmed and without a surrounding double quote. A
  field is plain when it is free of the separator and of line feeds; a row is exportable
  when its four text fields are plain and its coordinates are printed without a line
  feed. A line cut off at a line feed loses a carriage return at its end.
\<close>

definition customer_fields :: "customer \<Rightarrow> jsstring \<times> jsstring \<times> jsstring \<times> jsstring" where
  "customer_fields c = (installationNumber c, name c, phone c, address c)"

definition imported_fields :: "'n supabase_customer \<Rightarrow> jsstring \<times> jsstring \<times> jsstring \<times> jsstring" where
  "imported_fields r =
     (strip_quotes (trim (installation_number r)), db_name r,
      strip_quotes (trim (db_phone r)), db_address r)"

definition plain_field :: "jsstring \<Rightarrow> bool" where
  "plain_field s = (59 \<notin> set s \<and> 10 \<notin> set s)"

definition exportable :: "('n \<Rightarrow> bool) \<Rightarrow> ('n \<Rightarrow> jsstring) \<Rightarrow> 'n supabase_customer \<Rightarrow> bool" where
  "exportable numTruthy numToString r =
     (plain_field (installation_number r) \<and> plain_field (db_name r) \<and>
      plain_field (db_phone r) \<and> plain_field (db_address r) \<and>
      10 \<notin> set (coordinateText numTruthy numToString (db_latitude r)) \<and>
      10 \<notin> set (coordinateText numTruthy numToString (db_longitude r)))"

definition drop_cr :: "jsstring \<Rightarrow> jsstring" where
  "drop_cr l = (if l \<noteq> [] \<and> last l = 13 then butlast l else l)"

section \<open>Properties of authentication\<close>

lemma lit_PGRST116: "code PGRST116 = lit ''PGRST116''"
  by (simp add: PGRST116_def)

lemma ANY_DEVICE_nonempty: "ANY_DEVICE \<noteq> []"
  by (simp add: ANY_DEVICE_def lit_def)

lemma authenticateUser_found:
  assumes "filter (\<lambda>u. username u = uname) tbl = [d]"
  shows "authenticateUser None uf tbl uname pw deviceId =
     (if password d \<noteq> pw then (Inl InvalidCredentials, tbl)
      else if allowed_device_id d = Some ANY_DEVICE then (Inr True, tbl)
      else if truthy (allowed_device_id d) \<and> allowed_device_id d \<noteq> Some deviceId
        then (Inl DeviceNotAuthorized, tbl)
      else if \<not> truthy (allowed_device_id d) \<and> deviceId \<noteq> []
        then (Inr False, case uf of None \<Rightarrow> bind_device uname deviceId tbl | Some e \<Rightarrow> tbl)
      else (Inr False, tbl))"
  using assms by (simp add: authenticateUser_def single_def)

lemma authenticateUser_absent:
  assumes "filter (\<lambda>u. username u = uname) tbl = []"
  shows "authenticateUser None uf tbl uname pw deviceId = (Inl InvalidCredentials, tbl)"
  using assms by (simp add: authenticateUser_def single_def lit_PGRST116)

text \<open>
  C1. With the \<open>users\<close> table read, authentication fails with \<open>InvalidCredentials\<close>
  when no row has the username or when the stored password differs; with the password
  right, a row holding the sentinel succeeds as unrestricted for every device, a row
  holding a concrete device other than the caller's fails with
  \<open>DeviceNotAuthorized\<close>, and a row holding the caller's own (concrete) device succeeds
  as restricted.
\<close>

theorem authenticate_contract:
  "(filter (\<lambda>u. username u = uname) tbl = [] \<longrightarrow>
      fst (authenticateUser None uf tbl uname pw deviceId) = Inl InvalidCredentials) \<and>
   (filter (\<lambda>u. username u = uname) tbl = [d] \<and> password d \<noteq> pw \<longrightarrow>
      fst (authenticateUser None uf tbl uname pw deviceId) = Inl InvalidCredentials) \<and>
   (filter (\<lambda>u. username u = uname) tbl = [d] \<and> password d = pw \<and>
    allowed_device_id d = Some ANY_DEVICE \<longrightarrow>
      fst (authenticateUser None uf tbl uname pw deviceId) = Inr True) \<and>
   (filter (\<lambda>u. username u = uname) tbl = [d] \<and> password d = pw \<and>
    concrete_device (allowed_device_id d) \<and> allowed_device_id d \<noteq> Some deviceId \<longrightarrow>
      fst (authenticateUser None uf tbl uname pw deviceId) = Inl DeviceNotAuthorized) \<and>
   (filter (\<lambda>u. username u = uname) tbl = [d] \<and> password d = pw \<and>
    concrete_device (allowed_device_id d) \<and> allowed_device_id d = Some deviceId \<longrightarrow>
      fst (authenticateUser None uf tbl uname pw deviceId) = Inr False)"
  by (auto simp: authenticateUser_found authenticateUser_absent concrete_device_def)

theorem authenticate_contract_witness:
  "fst (authenticateUser None None
      [\<lparr>user_id = 1, username = lit ''1001'', password = lit ''pw'',
        allowed_device_id = Some (lit ''dev-1'')\<rparr>]
      (lit ''2002'') (lit ''pw'') (lit ''dev-1'')) = Inl InvalidCredentials \<and>
   fst (authenticateUser None None
      [\<lparr>user_id = 1, username = lit ''1001'', password = lit ''pw'',
        allowed_device_id = Some (lit ''dev-1'')\<rparr>]
      (lit ''1001'') (lit ''wrong'') (lit ''dev-1'')) = Inl InvalidCredentials \<and>
   fst (authenticateUser None None
      [\<lparr>user_id = 1, username = lit ''1001'', password = lit ''pw'',
        allowed_device_id = Some ANY_DEVICE\<rparr>]
      (lit ''1001'') (lit ''pw'') (lit ''dev-7'')) = Inr True \<and>
   fst (authenticateUser None None
      [\<lparr>user_id = 1, username = lit ''1001'', password = lit ''pw'',
        allowed_device_id = Some (lit ''dev-1'')\<rparr>]
      (lit ''1001'') (lit ''pw'') (lit ''dev-2'')) = Inl DeviceNotAuthorized \<and>
   fst (authenticateUser None None
      [\<lparr>user_id = 1, username = lit ''1001'', password = lit ''pw'',
        allowed_device_id = Some (lit ''dev-1'')\<rparr>]
      (lit ''1001'') (lit ''pw'') (lit ''dev-1'')) = Inr False"
proof -
  let ?u = "\<lparr>user_id = 1, username = lit ''1001'', password = lit ''pw'',
        allowed_device_id = Some (lit ''dev-1'')\<rparr>"
  let ?a = "\<lparr>user_id = 1, username = lit ''1001'', password = lit ''pw'',
        allowed_device_id = Some ANY_DEVICE\<rparr>"
  have c1: "fst (authenticateUser None None [?u] (lit ''2002'') (lit ''pw'') (lit ''dev-1''))
      = Inl InvalidCredentials"
    using authenticate_contract [of "lit ''2002''" "[?u]" None "lit ''pw''" "lit ''dev-1''" ?u]
    by (simp add: lit_def)
  have c2: "fst (authenticateUser None None [?u] (lit ''1001'') (lit ''wrong'') (lit ''dev-1''))
      = Inl InvalidCredentials"
    using authenticate_contract [of "lit ''1001''" "[?u]" None "lit ''wrong''" "lit ''dev-1''" ?u]
    by (simp add: lit_def)
  have c3: "fst (authenticateUser None None [?a] (lit ''1001'') (lit ''pw'') (lit ''dev-7''))
      = Inr True"
    using authenticate_contract [of "lit ''1001''" "[?a]" None "lit ''pw''" "lit ''dev-7''" ?a]
    by (simp add: lit_def)
  have c4: "fst (authenticateUser None None [?u] (lit ''1001'') (lit ''pw'') (lit ''dev-2''))
      = Inl DeviceNotAuthorized"
    using authenticate_contract [of "lit ''1001''" "[?u]" None "lit ''pw''" "lit ''dev-2''" ?u]
    by (simp add: lit_def concrete_device_def ANY_DEVICE_def)
  have c5: "fst (authenticateUser None None [?u] (lit ''1001'') (lit ''pw'') (lit ''dev-1''))
      = Inr False"
    using authenticate_contract [of "lit ''1001''" "[?u]" None "lit ''pw''" "lit ''dev-1''" ?u]
    by (simp add: lit_def concrete_device_def ANY_DEVICE_def)
  from c1 c2 c3 c4 c5 show ?thesis by blast
qed

lemma username_bind_device:
  "map username (bind_device uname dev tbl) = map username tbl"
  by (induction tbl) (simp_all add: bind_device_def)

lemma filter_bind_device:
  "filter (\<lambda>u. username u = uname) (bind_device uname dev tbl) =
   map (\<lambda>u. u\<lparr>allowed_device_id := Some dev\<rparr>) (filter (\<lambda>u. username u = uname) tbl)"
  by (induction tbl) (simp_all add: bind_device_def)

lemma bind_device_idem:
  "bind_device uname dev (bind_device uname dev tbl) = bind_device uname dev tbl"
  by (induction tbl) (simp_all add: bind_device_def)

lemma authenticateUser_state:
  "snd (authenticateUser sf uf tbl uname pw dev) = tbl \<or>
   (\<exists>d. filter (\<lambda>u. username u = uname) tbl = [d] \<and> \<not> truthy (allowed_device_id d) \<and>
        snd (authenticateUser sf uf tbl uname pw dev) = bind_device uname dev tbl)"
  by (cases sf; cases "filter (\<lambda>u. username u = uname) tbl"; cases uf)
    (auto simp: authenticateUser_def single_def Let_def split: list.splits)

text \<open>
  C4 (as amended). For a credential whose device column is empty or unset, and a device
  identifier that is neither empty nor the sentinel, with the read and the binding write
  reaching the table: the login succeeds as restricted and stores the device on the
  credential; logging in again from the same device succeeds and leaves the table as it
  is; and every later login from another device fails and leaves the table as it is, with
  \<open>DeviceNotAuthorized\<close> when the table is read and the password is right.
\<close>

theorem first_use_binding:
  assumes found: "filter (\<lambda>u. username u = uname) tbl = [d]"
    and pw: "password d = pw"
    and unset: "\<not> truthy (allowed_device_id d)"
    and dev: "deviceId \<noteq> []" "deviceId \<noteq> ANY_DEVICE"
  shows "authenticateUser None None tbl uname pw deviceId =
           (Inr False, bind_device uname deviceId tbl) \<and>
         filter (\<lambda>u. username u = uname) (bind_device uname deviceId tbl) =
           [d\<lparr>allowed_device_id := Some deviceId\<rparr>] \<and>
         authenticateUser None uf (bind_device uname deviceId tbl) uname pw deviceId =
           (Inr False, bind_device uname deviceId tbl) \<and>
         (\<forall>dev' pw' sf uf'. dev' \<noteq> deviceId \<longrightarrow>
            isl (fst (authenticateUser sf uf' (bind_device uname deviceId tbl) uname pw' dev')) \<and>
            snd (authenticateUser sf uf' (bind_device uname deviceId tbl) uname pw' dev') =
              bind_device uname deviceId tbl) \<and>
         (\<forall>dev' uf'. dev' \<noteq> deviceId \<longrightarrow>
            fst (authenticateUser None uf' (bind_device uname deviceId tbl) uname pw dev') =
              Inl DeviceNotAuthorized)"
proof -
  let ?tbl' = "bind_device uname deviceId tbl"
  let ?d' = "d\<lparr>allowed_device_id := Some deviceId\<rparr>"
  have first: "authenticateUser None None tbl uname pw deviceId = (Inr False, ?tbl')"
    using pw unset dev ANY_DEVICE_nonempty
    by (cases "allowed_device_id d") (auto simp: authenticateUser_found [OF found])
  have found': "filter (\<lambda>u. username u = uname) ?tbl' = [?d']"
    by (simp add: filter_bind_device found)
  have again: "authenticateUser None uf ?tbl' uname pw deviceId = (Inr False, ?tbl')"
    using pw dev by (simp add: authenticateUser_found [OF found'])
  have other: "isl (fst (authenticateUser sf uf' ?tbl' uname pw' dev')) \<and>
      snd (authenticateUser sf uf' ?tbl' uname pw' dev') = ?tbl'"
    if "dev' \<noteq> deviceId" for dev' pw' sf uf'
  proof (cases sf)
    case None
    then show ?thesis
      using that dev by (simp add: authenticateUser_found [OF found'])
  next
    case (Some e)
    then show ?thesis
      by (simp add: authenticateUser_def single_def)
  qed
  have refused: "fst (authenticateUser None uf' ?tbl' uname pw dev') = Inl DeviceNotAuthorized"
    if "dev' \<noteq> deviceId" for dev' uf'
    using that pw dev by (simp add: authenticateUser_found [OF found'])
  from first found' again other refused show ?thesis by blast
qed

theorem first_use_binding_witness:
  "authenticateUser None None
     [\<lparr>user_id = 1, username = lit ''1001'', password = lit ''pw'', allowed_device_id = None\<rparr>]
     (lit ''1001'') (lit ''pw'') (lit ''dev-1'') =
     (Inr False,
      [\<lparr>user_id = 1, username = lit ''1001'', password = lit ''pw'',
        allowed_device_id = Some (lit ''dev-1'')\<rparr>]) \<and>
   authenticateUser None None
     [\<lparr>user_id = 1, username = lit ''1001'', password = lit ''pw'',
       allowed_device_id = Some (lit ''dev-1'')\<rparr>]
     (lit ''1001'') (lit ''pw'') (lit ''dev-1'') =
     (Inr False,
      [\<lparr>user_id = 1, username = lit ''1001'', password = lit ''pw'',
        allowed_device_id = Some (lit ''dev-1'')\<rparr>]) \<and>
   fst (authenticateUser None None
     [\<lparr>user_id = 1, username = lit ''1001'', password = lit ''pw'',
       allowed_device_id = Some (lit ''dev-1'')\<rparr>]
     (lit ''1001'') (lit ''pw'') (lit ''dev-2'')) = Inl DeviceNotAuthorized"
proof -
  let ?u = "\<lparr>user_id = 1, username = lit ''1001'', password = lit ''pw'',
       allowed_device_id = None\<rparr>"
  have f: "filter (\<lambda>u. username u = lit ''1001'') [?u] = [?u]" by simp
  have b: "bind_device (lit ''1001'') (lit ''dev-1'') [?u] =
      [\<lparr>user_id = 1, username = lit ''1001'', password = lit ''pw'',
        allowed_device_id = Some (lit ''dev-1'')\<rparr>]"
    by (simp add: bind_device_def)
  have n: "lit ''dev-1'' \<noteq> []" "lit ''dev-1'' \<noteq> ANY_DEVICE" "lit ''dev-2'' \<noteq> lit ''dev-1''"
    by (simp_all add: lit_def ANY_DEVICE_def)
  from first_use_binding [OF f _ _ n(1) n(2), of "lit ''pw''" None] n(3)
  show ?thesis by (simp add: b)
qed

text \<open>
  The claim as stated fails for the empty device identifier, which the guard
  \<open>!data.allowed_device_id && deviceId\<close> excludes from binding: the login succeeds,
  nothing is stored, and a later login from another device succeeds too.
\<close>

theorem first_use_binding_counterexample:
  "fst (authenticateUser None None
     [\<lparr>user_id = 1, username = lit ''1001'', password = lit ''pw'', allowed_device_id = None\<rparr>]
     (lit ''1001'') (lit ''pw'') []) = Inr False \<and>
   snd (authenticateUser None None
     [\<lparr>user_id = 1, username = lit ''1001'', password = lit ''pw'', allowed_device_id = None\<rparr>]
     (lit ''1001'') (lit ''pw'') []) =
     [\<lparr>user_id = 1, username = lit ''1001'', password = lit ''pw'', allowed_device_id = None\<rparr>] \<and>
   fst (authenticateUser None None
     (snd (authenticateUser None None
       [\<lparr>user_id = 1, username = lit ''1001'', password = lit ''pw'', allowed_device_id = None\<rparr>]
       (lit ''1001'') (lit ''pw'') []))
     (lit ''1001'') (lit ''pw'') (lit ''dev-2'')) = Inr False"
  by (simp add: authenticateUser_def single_def ANY_DEVICE_def lit_def)

text \<open>
  Binding the sentinel itself is not excluded by the program: a first login whose device
  identifier is the text \<open>ANY_DEVICE\<close> stores the sentinel, and the account is then
  open to every device.
\<close>

lemma binding_the_sentinel:
  "authenticateUser None None
     [\<lparr>user_id = 1, username = lit ''1001'', password = lit ''pw'', allowed_device_id = None\<rparr>]
     (lit ''1001'') (lit ''pw'') ANY_DEVICE =
     (Inr False,
      [\<lparr>user_id = 1, username = lit ''1001'', password = lit ''pw'',
        allowed_device_id = Some ANY_DEVICE\<rparr>]) \<and>
   fst (authenticateUser None None
     [\<lparr>user_id = 1, username = lit ''1001'', password = lit ''pw'',
       allowed_device_id = Some ANY_DEVICE\<rparr>]
     (lit ''1001'') (lit ''pw'') (lit ''dev-2'')) = Inr True"
  by (simp add: authenticateUser_def single_def ANY_DEVICE_def lit_def bind_device_def)

lemma authenticateUser_uninterrupted:
  "authenticateUser sf uf tbl uname pw dev =
   authenticateUser_interleaved sf uf tbl tbl uname pw dev"
  by (simp add: authenticateUser_def authenticateUser_interleaved_def)

lemma authenticateUser_interleaved_state:
  "snd (authenticateUser_interleaved sf uf tbl tbl' uname pw dev) = tbl' \<or>
   (\<exists>d. filter (\<lambda>u. username u = uname) tbl = [d] \<and> \<not> truthy (allowed_device_id d) \<and>
        password d = pw \<and> dev \<noteq> [] \<and>
        snd (authenticateUser_interleaved sf uf tbl tbl' uname pw dev) =
          bind_device uname dev tbl')"
  by (cases sf; cases "filter (\<lambda>u. username u = uname) tbl"; cases uf)
    (auto simp: authenticateUser_interleaved_def single_def Let_def split: list.splits)

text \<open>
  C5 (as amended). A call of \<open>authenticateUser\<close> during which no other client writes to
  the table changes no row whose device column holds a concrete device, whatever its
  arguments and whatever the transport does. Among other clients, a call changes only
  rows with its own username, only to its own device, and only when its own select found
  the credential with an empty device: so a concrete device is overwritten by a login
  only when that login read the credential before the device was bound (the last writer
  wins). The admin edit \<open>updateCredential\<close> stores the edited device on every row it
  addresses.
\<close>

theorem concrete_device_kept:
  "length (snd (authenticateUser sf uf tbl uname pw dev)) = length tbl \<and>
   (\<forall>i < length tbl. concrete_device (allowed_device_id (tbl ! i)) \<longrightarrow>
      snd (authenticateUser sf uf tbl uname pw dev) ! i = tbl ! i) \<and>
   length (snd (authenticateUser_interleaved sf uf tbl tbl' uname pw dev)) = length tbl' \<and>
   (\<forall>i < length tbl'.
      snd (authenticateUser_interleaved sf uf tbl tbl' uname pw dev) ! i \<noteq> tbl' ! i \<longrightarrow>
      username (tbl' ! i) = uname \<and>
      allowed_device_id (snd (authenticateUser_interleaved sf uf tbl tbl' uname pw dev) ! i) =
        Some dev \<and>
      (\<exists>d. filter (\<lambda>u. username u = uname) tbl = [d] \<and> \<not> truthy (allowed_device_id d))) \<and>
   (\<forall>i < length tbl. username (tbl ! i) = orig \<longrightarrow>
      allowed_device_id (snd (updateCredential None tbl orig c) ! i) =
        orNull (allowedDeviceId c))"
proof -
  let ?tbl' = "snd (authenticateUser sf uf tbl uname pw dev)"
  let ?out = "snd (authenticateUser_interleaved sf uf tbl tbl' uname pw dev)"
  have len: "length ?tbl' = length tbl"
    using authenticateUser_state [of sf uf tbl uname pw dev]
    by (auto simp: bind_device_def)
  have kept: "?tbl' ! i = tbl ! i"
    if i: "i < length tbl" and c: "concrete_device (allowed_device_id (tbl ! i))" for i
  proof -
    from authenticateUser_state [of sf uf tbl uname pw dev]
    consider "?tbl' = tbl"
      | d where "filter (\<lambda>u. username u = uname) tbl = [d]"
          "\<not> truthy (allowed_device_id d)" "?tbl' = bind_device uname dev tbl"
      by blast
    then show ?thesis
    proof cases
      case 1
      then show ?thesis by simp
    next
      case 2
      have "username (tbl ! i) \<noteq> uname"
      proof
        assume "username (tbl ! i) = uname"
        with i have "tbl ! i \<in> set (filter (\<lambda>u. username u = uname) tbl)" by simp
        with 2(1) have "tbl ! i = d" by simp
        with 2(2) c show False by (simp add: concrete_device_def)
      qed
      with i 2(3) show ?thesis by (simp add: bind_device_def)
    qed
  qed
  have len': "length ?out = length tbl'"
    using authenticateUser_interleaved_state [of sf uf tbl tbl' uname pw dev]
    by (auto simp: bind_device_def)
  have changed: "username (tbl' ! i) = uname \<and> allowed_device_id (?out ! i) = Some dev \<and>
      (\<exists>d. filter (\<lambda>u. username u = uname) tbl = [d] \<and> \<not> truthy (allowed_device_id d))"
    if i: "i < length tbl'" and ne: "?out ! i \<noteq> tbl' ! i" for i
  proof -
    from authenticateUser_interleaved_state [of sf uf tbl tbl' uname pw dev] ne
    obtain d where d: "filter (\<lambda>u. username u = uname) tbl = [d]"
        "\<not> truthy (allowed_device_id d)"
      and out: "?out = bind_device uname dev tbl'"
      by auto
    from ne i have "username (tbl' ! i) = uname"
      unfolding out by (auto simp: bind_device_def split: if_splits)
    with i d show ?thesis
      unfolding out by (auto simp: bind_device_def)
  qed
  have edit: "allowed_device_id (snd (updateCredential None tbl orig c) ! i) =
      orNull (allowedDeviceId c)"
    if "i < length tbl" "username (tbl ! i) = orig" for i
    using that by (simp add: updateCredential_def)
  from len kept len' changed edit show ?thesis by blast
qed

theorem concrete_device_kept_witness:
  "snd (authenticateUser None None
     [\<lparr>user_id = 1, username = lit ''1001'', password = lit ''pw'',
       allowed_device_id = Some (lit ''dev-1'')\<rparr>]
     (lit ''1001'') (lit ''pw'') (lit ''dev-1'')) ! 0 =
     \<lparr>user_id = 1, username = lit ''1001'', password = lit ''pw'',
       allowed_device_id = Some (lit ''dev-1'')\<rparr> \<and>
   allowed_device_id (snd (authenticateUser_interleaved None None
     [\<lparr>user_id = 1, username = lit ''1001'', password = lit ''pw'', allowed_device_id = None\<rparr>]
     [\<lparr>user_id = 1, username = lit ''1001'', password = lit ''pw'',
       allowed_device_id = Some (lit ''dev-A'')\<rparr>]
     (lit ''1001'') (lit ''pw'') (lit ''dev-B'')) ! 0) = Some (lit ''dev-B'') \<and>
   allowed_device_id (snd (updateCredential None
     [\<lparr>user_id = 1, username = lit ''1001'', password = lit ''pw'',
       allowed_device_id = Some (lit ''dev-1'')\<rparr>]
     (lit ''1001'')
     \<lparr>cred_username = lit ''1001'', cred_password = lit ''pw'',
       allowedDeviceId = lit ''dev-9''\<rparr>) ! 0) = Some (lit ''dev-9'')"
proof -
  let ?u = "\<lparr>user_id = 1, username = lit ''1001'', password = lit ''pw'',
       allowed_device_id = Some (lit ''dev-1'')\<rparr>"
  let ?n = "\<lparr>user_id = 1, username = lit ''1001'', password = lit ''pw'',
       allowed_device_id = None\<rparr>"
  let ?a = "\<lparr>user_id = 1, username = lit ''1001'', password = lit ''pw'',
       allowed_device_id = Some (lit ''dev-A'')\<rparr>"
  let ?c = "\<lparr>cred_username = lit ''1001'', cred_password = lit ''pw'',
       allowedDeviceId = lit ''dev-9''\<rparr>"
  have c: "concrete_device (allowed_device_id ([?u] ! 0))"
    by (simp add: concrete_device_def ANY_DEVICE_def lit_def)
  have o: "orNull (allowedDeviceId ?c) = Some (lit ''dev-9'')"
    by (simp add: orNull_def lit_def)
  have ne: "snd (authenticateUser_interleaved None None [?n] [?a] (lit ''1001'') (lit ''pw'')
      (lit ''dev-B'')) ! 0 \<noteq> [?a] ! 0"
    by (simp add: authenticateUser_interleaved_def single_def bind_device_def lit_def)
  from concrete_device_kept [of None None "[?u]" "lit ''1001''" "lit ''pw''" "lit ''dev-1''"
      "[?u]" "lit ''1001''" ?c] c o
  have first: "snd (authenticateUser None None [?u] (lit ''1001'') (lit ''pw'') (lit ''dev-1'')) ! 0
      = ?u"
    and third: "allowed_device_id (snd (updateCredential None [?u] (lit ''1001'') ?c) ! 0) =
      Some (lit ''dev-9'')"
    by simp_all
  from concrete_device_kept [of None None "[?n]" "lit ''1001''" "lit ''pw''" "lit ''dev-B''"
      "[?a]" "lit ''1001''" ?c] ne
  have second: "allowed_device_id (snd (authenticateUser_interleaved None None [?n] [?a]
      (lit ''1001'') (lit ''pw'') (lit ''dev-B'')) ! 0) = Some (lit ''dev-B'')"
    by simp
  from first second third show ?thesis by simp
qed

text \<open>
  The claim as stated fails among other clients: a login that read the credential while
  its device was still empty overwrites the concrete device that another login has bound
  in the meantime.
\<close>

theorem concrete_device_kept_counterexample:
  "concrete_device (Some (lit ''dev-A'')) \<and>
   snd (authenticateUser_interleaved None None
     [\<lparr>user_id = 1, username = lit ''1001'', password = lit ''pw'', allowed_device_id = None\<rparr>]
     [\<lparr>user_id = 1, username = lit ''1001'', password = lit ''pw'',
       allowed_device_id = Some (lit ''dev-A'')\<rparr>]
     (lit ''1001'') (lit ''pw'') (lit ''dev-B'')) =
     [\<lparr>user_id = 1, username = lit ''1001'', password = lit ''pw'',
       allowed_device_id = Some (lit ''dev-B'')\<rparr>]"
  by (simp add: authenticateUser_interleaved_def single_def bind_device_def concrete_device_def
      ANY_DEVICE_def lit_def)

section \<open>Properties of splitting and joining\<close>


lemma split_on_nonempty: "split_on sep s \<noteq> []"
  by (induction s) (auto split: list.splits)

lemma split_on_no_sep: "p \<in> set (split_on sep s) \<Longrightarrow> sep \<notin> set p"
  by (induction s arbitrary: p) (auto split: list.splits if_splits)

lemma split_on_whole: "sep \<notin> set a \<Longrightarrow> split_on sep a = [a]"
  by (induction a) auto

lemma split_on_append:
  "sep \<notin> set a \<Longrightarrow> split_on sep (a @ sep # rest) = a # split_on sep rest"
  by (induction a) (auto split: list.splits)

lemma split_on_join:
  "ps \<noteq> [] \<Longrightarrow> \<forall>p \<in> set ps. sep \<notin> set p \<Longrightarrow> split_on sep (join [sep] ps) = ps"
proof (induction ps)
  case Nil
  then show ?case by simp
next
  case (Cons p ps)
  show ?case
  proof (cases ps)
    case Nil
    with Cons.prems show ?thesis by (simp add: split_on_whole)
  next
    case (Cons q qs)
    with Cons.IH Cons.prems show ?thesis by (simp add: split_on_append)
  qed
qed

section \<open>Properties of the access gate\<close>

lemma getDay_weekend:
  "(getDay now = 0 \<or> getDay now = 6) = (weekday now = Sunday \<or> weekday now = Saturday)"
  by (cases "weekday now") (simp_all add: getDay_def)

lemma digits_value_snoc: "digits_value (s @ [c]) = 10 * digits_value s + (c - 48)"
  by (simp add: digits_value_def)

lemma digits_value_decimal: "digits_value (decimal n) = n"
proof (induction n rule: decimal.induct)
  case (1 n)
  show ?case
  proof (cases "n < 10")
    case True
    then show ?thesis by (subst decimal.simps) (simp add: digits_value_def)
  next
    case False
    with 1 show ?thesis by (subst decimal.simps) (simp add: digits_value_snoc)
  qed
qed

lemma decimal_digits: "c \<in> set (decimal n) \<Longrightarrow> 48 \<le> c \<and> c \<le> 57"
proof (induction n rule: decimal.induct)
  case (1 n)
  show ?case
  proof (cases "n < 10")
    case True
    with "1.prems" show ?thesis by (subst (asm) decimal.simps) simp
  next
    case False
    have "n mod 10 < 10" by simp
    with False 1 show ?thesis by (subst (asm) decimal.simps) auto
  qed
qed

lemma no_hyphen: "45 \<notin> set (padStart k 48 (decimal n))"
  by (auto simp: padStart_def dest: decimal_digits)

lemma digits_value_padded: "digits_value (padStart k 48 (decimal n)) = n"
proof -
  have "foldl (\<lambda>acc c. 10 * acc + (c - 48)) 0 (replicate j 48) = (0::nat)" for j
    by (induction j) simp_all
  then show ?thesis
    using digits_value_decimal [of n] by (simp add: padStart_def digits_value_def)
qed

text \<open>The text built from a date names that date.\<close>

lemma date_of_date_text: "date_of_text (date_text y m d) = (y, m, d)"
proof -
  have y: "45 \<notin> set (decimal y)" using no_hyphen [of 0 y] by (simp add: padStart_def)
  have "split_on 45 (date_text y m d) =
      [decimal y, padStart 2 48 (decimal m), padStart 2 48 (decimal d)]"
    by (simp add: date_text_def lit_def split_on_append [OF y]
        split_on_append [OF no_hyphen] split_on_whole [OF no_hyphen])
  then show ?thesis
    using digits_value_decimal [of y] digits_value_padded [of 2 m] digits_value_padded [of 2 d]
    by (simp add: date_of_text_def)
qed

lemma formattedDate_date_text:
  "formattedDate now = date_text (getFullYear now) (getMonth now + 1) (getDate now)"
  by (simp add: formattedDate_def date_text_def)

text \<open>The dates of the holiday set, and back: each holiday text is the text of its date.\<close>

lemma holiday_dates_eq:
  "holiday_dates =
     [(2024, 1, 1), (2024, 4, 9), (2024, 4, 10), (2024, 4, 11), (2024, 4, 12),
      (2024, 4, 23), (2024, 5, 1), (2024, 5, 19), (2024, 6, 15), (2024, 6, 16),
      (2024, 6, 17), (2024, 6, 18), (2024, 6, 19), (2024, 7, 15), (2024, 8, 30),
      (2024, 10, 29), (2025, 1, 1), (2025, 3, 29), (2025, 3, 30), (2025, 3, 31),
      (2025, 4, 1), (2025, 4, 23), (2025, 5, 1), (2025, 5, 19), (2025, 6, 5),
      (2025, 6, 6), (2025, 6, 7), (2025, 6, 8), (2025, 6, 9), (2025, 7, 15),
      (2025, 8, 30), (2025, 10, 29), (2026, 1, 1), (2026, 3, 19), (2026, 3, 20),
      (2026, 3, 21), (2026, 3, 22), (2026, 4, 23), (2026, 5, 1), (2026, 5, 19),
      (2026, 5, 26), (2026, 5, 27), (2026, 5, 28), (2026, 5, 29), (2026, 5, 30),
      (2026, 7, 15), (2026, 8, 30), (2026, 10, 29), (2027, 1, 1), (2027, 3, 8),
      (2027, 3, 9), (2027, 3, 10), (2027, 3, 11), (2027, 4, 23), (2027, 5, 1),
      (2027, 5, 15), (2027, 5, 16), (2027, 5, 17), (2027, 5, 18), (2027, 5, 19),
      (2027, 7, 15), (2027, 8, 30), (2027, 10, 29), (2028, 1, 1), (2028, 2, 26),
      (2028, 2, 27), (2028, 2, 28), (2028, 4, 23), (2028, 5, 1), (2028, 5, 5),
      (2028, 5, 6), (2028, 5, 7), (2028, 5, 8), (2028, 5, 9), (2028, 5, 19),
      (2028, 7, 15), (2028, 8, 30), (2028, 10, 29), (2029, 1, 1), (2029, 2, 14),
      (2029, 2, 15), (2029, 2, 16), (2029, 2, 17), (2029, 4, 23), (2029, 4, 24),
      (2029, 4, 25), (2029, 4, 26), (2029, 4, 27), (2029, 4, 28), (2029, 5, 1),
      (2029, 5, 19), (2029, 7, 15), (2029, 8, 30), (2029, 10, 29), (2030, 1, 1),
      (2030, 2, 3), (2030, 2, 4), (2030, 2, 5), (2030, 2, 6), (2030, 4, 13),
      (2030, 4, 14), (2030, 4, 15), (2030, 4, 16), (2030, 4, 17), (2030, 4, 23),
      (2030, 5, 1), (2030, 5, 19), (2030, 7, 15), (2030, 8, 30), (2030, 10, 29)]"
  by (simp add: holiday_dates_def publicHolidays_def date_of_text_def digits_value_def lit_def)

lemma holiday_texts:
  "publicHolidays = map (\<lambda>(y, m, d). date_text y m d) holiday_dates"
  unfolding holiday_dates_eq
  by (simp add: publicHolidays_def date_text_def padStart_def decimal.simps lit_def)

lemma holiday_iff:
  "formattedDate now \<in> set publicHolidays \<longleftrightarrow>
   (getFullYear now, getMonth now + 1, getDate now) \<in> set holiday_dates"
proof
  assume "formattedDate now \<in> set publicHolidays"
  then have "date_of_text (formattedDate now) \<in> set holiday_dates"
    by (simp add: holiday_dates_def)
  then show "(getFullYear now, getMonth now + 1, getDate now) \<in> set holiday_dates"
    by (simp add: formattedDate_date_text date_of_date_text)
next
  assume "(getFullYear now, getMonth now + 1, getDate now) \<in> set holiday_dates"
  then have "(\<lambda>(y, m, d). date_text y m d) (getFullYear now, getMonth now + 1, getDate now)
      \<in> set (map (\<lambda>(y, m, d). date_text y m d) holiday_dates)"
    unfolding set_map by (rule imageI)
  then show "formattedDate now \<in> set publicHolidays"
    by (simp add: holiday_texts [symmetric] formattedDate_date_text)
qed

text \<open>
  C2. The service is open exactly when the day of the month is at most 20, the day of the
  week is Monday to Friday, the local hour is at least 8 and below 18, and the date (year,
  month counted from 1, day) is not one of the dates of the holiday set.
\<close>

theorem service_open_iff:
  "isWithinWorkingHours now \<longleftrightarrow>
     getDate now \<le> 20 \<and>
     weekday now \<in> {Monday, Tuesday, Wednesday, Thursday, Friday} \<and>
     8 \<le> getHours now \<and> getHours now < 18 \<and>
     (getFullYear now, getMonth now + 1, getDate now) \<notin> set holiday_dates"
proof -
  have "weekday now \<in> {Monday, Tuesday, Wednesday, Thursday, Friday} \<longleftrightarrow>
      \<not> (weekday now = Sunday \<or> weekday now = Saturday)"
    by (cases "weekday now") simp_all
  then show ?thesis
    unfolding isWithinWorkingHours_def getDay_weekend holiday_iff by auto
qed

theorem service_open_iff_witness:
  "\<not> isWithinWorkingHours \<lparr>getFullYear = 2025, getMonth = 2, getDate = 21, weekday = Friday,
      getHours = 10, getMinutes = 0\<rparr> \<and>
   \<not> isWithinWorkingHours \<lparr>getFullYear = 2025, getMonth = 2, getDate = 8, weekday = Saturday,
      getHours = 10, getMinutes = 0\<rparr> \<and>
   \<not> isWithinWorkingHours \<lparr>getFullYear = 2025, getMonth = 2, getDate = 9, weekday = Sunday,
      getHours = 10, getMinutes = 0\<rparr> \<and>
   \<not> isWithinWorkingHours \<lparr>getFullYear = 2025, getMonth = 2, getDate = 3, weekday = Monday,
      getHours = 7, getMinutes = 59\<rparr> \<and>
   \<not> isWithinWorkingHours \<lparr>getFullYear = 2025, getMonth = 2, getDate = 3, weekday = Monday,
      getHours = 18, getMinutes = 0\<rparr> \<and>
   \<not> isWithinWorkingHours \<lparr>getFullYear = 2025, getMonth = 4, getDate = 1, weekday = Thursday,
      getHours = 10, getMinutes = 0\<rparr> \<and>
   isWithinWorkingHours \<lparr>getFullYear = 2025, getMonth = 2, getDate = 3, weekday = Monday,
      getHours = 8, getMinutes = 0\<rparr>"
proof -
  have a: "\<not> isWithinWorkingHours \<lparr>getFullYear = 2025, getMonth = 2, getDate = 21,
      weekday = Friday, getHours = 10, getMinutes = 0\<rparr>"
    using service_open_iff [of "\<lparr>getFullYear = 2025, getMonth = 2, getDate = 21,
      weekday = Friday, getHours = 10, getMinutes = 0\<rparr>"] by simp
  have b: "\<not> isWithinWorkingHours \<lparr>getFullYear = 2025, getMonth = 2, getDate = 8,
      weekday = Saturday, getHours = 10, getMinutes = 0\<rparr>"
    using service_open_iff [of "\<lparr>getFullYear = 2025, getMonth = 2, getDate = 8,
      weekday = Saturday, getHours = 10, getMinutes = 0\<rparr>"] by simp
  have c: "\<not> isWithinWorkingHours \<lparr>getFullYear = 2025, getMonth = 2, getDate = 9,
      weekday = Sunday, getHours = 10, getMinutes = 0\<rparr>"
    using service_open_iff [of "\<lparr>getFullYear = 2025, getMonth = 2, getDate = 9,
      weekday = Sunday, getHours = 10, getMinutes = 0\<rparr>"] by simp
  have d: "\<not> isWithinWorkingHours \<lparr>getFullYear = 2025, getMonth = 2, getDate = 3,
      weekday = Monday, getHours = 7, getMinutes = 59\<rparr>"
    using service_open_iff [of "\<lparr>getFullYear = 2025, getMonth = 2, getDate = 3,
      weekday = Monday, getHours = 7, getMinutes = 59\<rparr>"] by simp
  have e: "\<not> isWithinWorkingHours \<lparr>getFullYear = 2025, getMonth = 2, getDate = 3,
      weekday = Monday, getHours = 18, getMinutes = 0\<rparr>"
    using service_open_iff [of "\<lparr>getFullYear = 2025, getMonth = 2, getDate = 3,
      weekday = Monday, getHours = 18, getMinutes = 0\<rparr>"] by simp
  have h: "\<not> isWithinWorkingHours \<lparr>getFullYear = 2025, getMonth = 4, getDate = 1,
      weekday = Thursday, getHours = 10, getMinutes = 0\<rparr>"
    using service_open_iff [of "\<lparr>getFullYear = 2025, getMonth = 4, getDate = 1,
      weekday = Thursday, getHours = 10, getMinutes = 0\<rparr>"]
    by (simp add: holiday_dates_eq)
  have f: "isWithinWorkingHours \<lparr>getFullYear = 2025, getMonth = 2, getDate = 3,
      weekday = Monday, getHours = 8, getMinutes = 0\<rparr>"
    using service_open_iff [of "\<lparr>getFullYear = 2025, getMonth = 2, getDate = 3,
      weekday = Monday, getHours = 8, getMinutes = 0\<rparr>"]
    by (simp add: holiday_dates_eq)
  from a b c d e h f show ?thesis by blast
qed

section \<open>Properties of the bulk upsert\<close>


lemma chunk_count_less: "k < chunk_count rows \<longleftrightarrow> k * CHUNK_SIZE < length rows"
proof -
  have "k < chunk_count rows \<longleftrightarrow> Suc k \<le> (length rows + CHUNK_SIZE - 1) div CHUNK_SIZE"
    by (simp add: chunk_count_def Suc_le_eq)
  also have "\<dots> \<longleftrightarrow> Suc k * CHUNK_SIZE \<le> length rows + CHUNK_SIZE - 1"
    by (rule less_eq_div_iff_mult_less_eq) (simp add: CHUNK_SIZE_def)
  also have "\<dots> \<longleftrightarrow> k * CHUNK_SIZE < length rows"
    by (auto simp: CHUNK_SIZE_def)
  finally show ?thesis .
qed

lemma permission_test_defined: "isPermissionError e \<Longrightarrow> \<not> permissionTestThrows e"
  by (auto simp: isPermissionError_def permissionTestThrows_def)

lemma bulk_loop_done:
  "\<not> i < length dbRows \<Longrightarrow>
   bulk_loop upsert dbRows i s e le pr = (\<lparr>success = s, errorCount = e, error = le\<rparr>, pr)"
  by (subst bulk_loop.simps) simp

lemma bulk_loop_stored:
  "i < length dbRows \<Longrightarrow> upsert i (take CHUNK_SIZE (drop i dbRows)) = Upserted \<Longrightarrow>
   bulk_loop upsert dbRows i s e le pr =
     bulk_loop upsert dbRows (i + CHUNK_SIZE)
       (s + int (length (take CHUNK_SIZE (drop i dbRows)))) e le
       (pr @ [(processed_upto dbRows i, length dbRows, e)])"
  by (subst bulk_loop.simps) (simp add: Let_def processed_upto_def)

lemma bulk_loop_failed:
  "i < length dbRows \<Longrightarrow> upsert i (take CHUNK_SIZE (drop i dbRows)) = Rejected err \<Longrightarrow>
   \<not> permissionTestThrows err \<Longrightarrow> \<not> isPermissionError err \<Longrightarrow>
   bulk_loop upsert dbRows i s e le pr =
     bulk_loop upsert dbRows (i + CHUNK_SIZE) s
       (e + int (length (take CHUNK_SIZE (drop i dbRows)))) (LastMessage (message err))
       (pr @ [(processed_upto dbRows i, length dbRows,
               e + int (length (take CHUNK_SIZE (drop i dbRows))))])"
  by (subst bulk_loop.simps) (simp add: Let_def processed_upto_def)

text \<open>An error object on which the permission test throws: the chunk is counted twice.\<close>

lemma bulk_loop_twice:
  "i < length dbRows \<Longrightarrow> upsert i (take CHUNK_SIZE (drop i dbRows)) = Rejected err \<Longrightarrow>
   permissionTestThrows err \<Longrightarrow>
   bulk_loop upsert dbRows i s e le pr =
     bulk_loop upsert dbRows (i + CHUNK_SIZE) s
       (e + int (length (take CHUNK_SIZE (drop i dbRows))) +
        int (length (take CHUNK_SIZE (drop i dbRows)))) IncludesOfUndefined
       (pr @ [(processed_upto dbRows i, length dbRows,
               e + int (length (take CHUNK_SIZE (drop i dbRows))) +
               int (length (take CHUNK_SIZE (drop i dbRows))))])"
  by (subst bulk_loop.simps) (simp add: Let_def processed_upto_def)

lemma bulk_loop_threw:
  "i < length dbRows \<Longrightarrow> upsert i (take CHUNK_SIZE (drop i dbRows)) = Threw m \<Longrightarrow>
   bulk_loop upsert dbRows i s e le pr =
     bulk_loop upsert dbRows (i + CHUNK_SIZE) s
       (e + int (length (take CHUNK_SIZE (drop i dbRows)))) (LastMessage (Some m))
       (pr @ [(processed_upto dbRows i, length dbRows,
               e + int (length (take CHUNK_SIZE (drop i dbRows))))])"
  by (subst bulk_loop.simps) (simp add: Let_def processed_upto_def)

lemma bulk_loop_aborted:
  "i < length dbRows \<Longrightarrow> upsert i (take CHUNK_SIZE (drop i dbRows)) = Rejected err \<Longrightarrow>
   isPermissionError err \<Longrightarrow>
   bulk_loop upsert dbRows i s e le pr =
     (\<lparr>success = s, errorCount = int (length dbRows) - s, error = WritePermissionDenied\<rparr>, pr)"
  by (subst bulk_loop.simps) (simp add: Let_def permission_test_defined)


lemma bulk_loop_total:
  assumes t: "\<forall>j c. testable (upsert j c)"
  shows "s + e = int (min i (length dbRows)) \<Longrightarrow>
   success (fst (bulk_loop upsert dbRows i s e le pr)) +
   errorCount (fst (bulk_loop upsert dbRows i s e le pr)) = int (length dbRows)"
proof (induction "length dbRows - i" arbitrary: i s e le pr rule: less_induct)
  case less
  show ?case
  proof (cases "i < length dbRows")
    case False
    with less.prems show ?thesis by (simp add: bulk_loop_done)
  next
    case True
    let ?chunk = "take CHUNK_SIZE (drop i dbRows)"
    have len: "int (min (i + CHUNK_SIZE) (length dbRows)) =
        int (min i (length dbRows)) + int (length ?chunk)"
      using True by (auto simp: min_def)
    have smaller: "length dbRows - (i + CHUNK_SIZE) < length dbRows - i"
      using True by (simp add: CHUNK_SIZE_def)
    note IH = less.hyps [OF smaller]
    show ?thesis
    proof (cases "upsert i ?chunk")
      case Upserted
      have "s + int (length ?chunk) + e = int (min (i + CHUNK_SIZE) (length dbRows))"
        using less.prems len by simp
      from IH [OF this] show ?thesis
        by (simp only: bulk_loop_stored [where upsert = upsert, OF True Upserted])
    next
      case (Rejected err)
      with t [rule_format, of i ?chunk] have nt: "\<not> permissionTestThrows err" by simp
      show ?thesis
      proof (cases "isPermissionError err")
        case True
        show ?thesis
          by (simp add: bulk_loop_aborted [where upsert = upsert,
                OF \<open>i < length dbRows\<close> Rejected True])
      next
        case False
        have "s + (e + int (length ?chunk)) = int (min (i + CHUNK_SIZE) (length dbRows))"
          using less.prems len by simp
        from IH [OF this] show ?thesis
          by (simp only: bulk_loop_failed [where upsert = upsert, OF True Rejected nt False])
      qed
    next
      case (Threw m)
      have "s + (e + int (length ?chunk)) = int (min (i + CHUNK_SIZE) (length dbRows))"
        using less.prems len by simp
      from IH [OF this] show ?thesis
        by (simp only: bulk_loop_threw [where upsert = upsert, OF True Threw])
    qed
  qed
qed

lemma stored_between_step:
  "m < k \<Longrightarrow> stored_between upsert rows m k =
     (if outcome_at upsert rows m = Upserted then int (length (chunk_at rows m)) else 0) +
     stored_between upsert rows (Suc m) k"
  by (simp add: stored_between_def upt_conv_Cons)

lemma failed_between_step:
  "m < k \<Longrightarrow> failed_between upsert rows m k =
     (if outcome_at upsert rows m = Upserted then 0 else int (length (chunk_at rows m))) +
     failed_between upsert rows (Suc m) k"
  by (simp add: failed_between_def upt_conv_Cons)

lemma next_chunk_index: "m * CHUNK_SIZE + CHUNK_SIZE = Suc m * CHUNK_SIZE"
  by simp

lemma bulk_loop_complete:
  assumes t: "\<forall>j c. testable (upsert j c)"
  shows "\<forall>j. m \<le> j \<and> j < chunk_count rows \<longrightarrow> \<not> fatal (outcome_at upsert rows j) \<Longrightarrow>
         success (fst (bulk_loop upsert rows (m * CHUNK_SIZE) s e le pr)) =
           s + stored_between upsert rows m (chunk_count rows) \<and>
         errorCount (fst (bulk_loop upsert rows (m * CHUNK_SIZE) s e le pr)) =
           e + failed_between upsert rows m (chunk_count rows)"
proof (induction "chunk_count rows - m" arbitrary: m s e le pr)
  case 0
  then have ge: "chunk_count rows \<le> m" by simp
  then have "\<not> m * CHUNK_SIZE < length rows" by (simp add: chunk_count_less [symmetric])
  moreover from ge have "stored_between upsert rows m (chunk_count rows) = 0"
    by (simp add: stored_between_def)
  moreover from ge have "failed_between upsert rows m (chunk_count rows) = 0"
    by (simp add: failed_between_def)
  ultimately show ?case
    by (simp add: bulk_loop_done)
next
  case (Suc d)
  then have m: "m < chunk_count rows" by simp
  then have i: "m * CHUNK_SIZE < length rows" by (simp add: chunk_count_less)
  have d: "d = chunk_count rows - Suc m" using Suc.hyps(2) by simp
  have rest: "\<forall>j. Suc m \<le> j \<and> j < chunk_count rows \<longrightarrow> \<not> fatal (outcome_at upsert rows j)"
    using Suc.prems by simp
  have nf: "\<not> fatal (outcome_at upsert rows m)" using Suc.prems m by simp
  note IH = Suc.hyps(1) [OF d rest]
  let ?chunk = "take CHUNK_SIZE (drop (m * CHUNK_SIZE) rows)"
  show ?case
  proof (cases "upsert (m * CHUNK_SIZE) ?chunk")
    case Upserted
    then have o: "outcome_at upsert rows m = Upserted"
      by (simp add: outcome_at_def chunk_at_def)
    show ?thesis
      using IH [of "s + int (length ?chunk)" e le "pr @ [(processed_upto rows (m * CHUNK_SIZE), length rows, e)]"]
      by (simp add: bulk_loop_stored [where upsert = upsert, OF i Upserted]
          stored_between_step [OF m] failed_between_step [OF m] o chunk_at_def
          add.commute [of CHUNK_SIZE])
  next
    case (Rejected err)
    then have o: "outcome_at upsert rows m = Rejected err"
      by (simp add: outcome_at_def chunk_at_def)
    with nf have np: "\<not> isPermissionError err" by simp
    from Rejected t [rule_format, of "m * CHUNK_SIZE" ?chunk]
    have nt: "\<not> permissionTestThrows err" by simp
    show ?thesis
      using IH [of s "e + int (length ?chunk)" "LastMessage (message err)" "pr @ [(processed_upto rows (m * CHUNK_SIZE), length rows, e + int (length ?chunk))]"]
      by (simp add: bulk_loop_failed [where upsert = upsert, OF i Rejected nt np]
          stored_between_step [OF m] failed_between_step [OF m] o chunk_at_def
          add.commute [of CHUNK_SIZE])
  next
    case (Threw msg)
    then have o: "outcome_at upsert rows m = Threw msg"
      by (simp add: outcome_at_def chunk_at_def)
    show ?thesis
      using IH [of s "e + int (length ?chunk)" "LastMessage (Some msg)" "pr @ [(processed_upto rows (m * CHUNK_SIZE), length rows, e + int (length ?chunk))]"]
      by (simp add: bulk_loop_threw [where upsert = upsert, OF i Threw]
          stored_between_step [OF m] failed_between_step [OF m] o chunk_at_def
          add.commute [of CHUNK_SIZE])
  qed
qed

lemma bulk_loop_abort:
  assumes t: "\<forall>j c. testable (upsert j c)"
    and run: "m \<le> k" "k < chunk_count rows" "fatal (outcome_at upsert rows k)"
      "\<forall>j. m \<le> j \<and> j < k \<longrightarrow> \<not> fatal (outcome_at upsert rows j)"
  shows "fst (bulk_loop upsert rows (m * CHUNK_SIZE) s e le pr) =
     \<lparr>success = s + stored_between upsert rows m k,
      errorCount = int (length rows) - (s + stored_between upsert rows m k),
      error = WritePermissionDenied\<rparr>"
  using run
proof (induction "k - m" arbitrary: m s e le pr)
  case 0
  then have mk: "m = k" by simp
  from 0 mk have i: "m * CHUNK_SIZE < length rows" by (simp add: chunk_count_less)
  from 0 mk obtain err where r: "upsert (m * CHUNK_SIZE)
      (take CHUNK_SIZE (drop (m * CHUNK_SIZE) rows)) = Rejected err" and p: "isPermissionError err"
    by (cases "outcome_at upsert rows m") (auto simp: outcome_at_def chunk_at_def)
  show ?case
    unfolding bulk_loop_aborted [where upsert = upsert, OF i r p]
    by (simp add: mk stored_between_def)
next
  case (Suc d)
  then have mk: "m < k" by simp
  with Suc.prems have m: "m < chunk_count rows" by simp
  then have i: "m * CHUNK_SIZE < length rows" by (simp add: chunk_count_less)
  have d: "d = k - Suc m" using Suc.hyps(2) by simp
  have rest: "\<forall>j. Suc m \<le> j \<and> j < k \<longrightarrow> \<not> fatal (outcome_at upsert rows j)"
    using Suc.prems by simp
  have nf: "\<not> fatal (outcome_at upsert rows m)" using Suc.prems mk by simp
  have "Suc m \<le> k" using mk by simp
  note IH = Suc.hyps(1) [OF d this Suc.prems(2) Suc.prems(3) rest]
  let ?chunk = "take CHUNK_SIZE (drop (m * CHUNK_SIZE) rows)"
  show ?case
  proof (cases "upsert (m * CHUNK_SIZE) ?chunk")
    case Upserted
    then have o: "outcome_at upsert rows m = Upserted"
      by (simp add: outcome_at_def chunk_at_def)
    show ?thesis
      using IH [of "s + int (length ?chunk)" e le "pr @ [(processed_upto rows (m * CHUNK_SIZE), length rows, e)]"]
      by (simp add: bulk_loop_stored [where upsert = upsert, OF i Upserted]
          stored_between_step [OF mk] o chunk_at_def
          add.commute [of CHUNK_SIZE])
  next
    case (Rejected err)
    then have o: "outcome_at upsert rows m = Rejected err"
      by (simp add: outcome_at_def chunk_at_def)
    with nf have np: "\<not> isPermissionError err" by simp
    from Rejected t [rule_format, of "m * CHUNK_SIZE" ?chunk]
    have nt: "\<not> permissionTestThrows err" by simp
    show ?thesis
      using IH [of s "e + int (length ?chunk)" "LastMessage (message err)" "pr @ [(processed_upto rows (m * CHUNK_SIZE), length rows, e + int (length ?chunk))]"]
      by (simp add: bulk_loop_failed [where upsert = upsert, OF i Rejected nt np]
          stored_between_step [OF mk] o chunk_at_def
          add.commute [of CHUNK_SIZE])
  next
    case (Threw msg)
    then have o: "outcome_at upsert rows m = Threw msg"
      by (simp add: outcome_at_def chunk_at_def)
    show ?thesis
      using IH [of s "e + int (length ?chunk)" "LastMessage (Some msg)" "pr @ [(processed_upto rows (m * CHUNK_SIZE), length rows, e + int (length ?chunk))]"]
      by (simp add: bulk_loop_threw [where upsert = upsert, OF i Threw]
          stored_between_step [OF mk] o chunk_at_def
          add.commute [of CHUNK_SIZE])
  qed
qed


lemma chunk_count_map: "chunk_count (map f xs) = chunk_count xs"
  by (simp add: chunk_count_def)

text \<open>
  The accounting of \<open>bulkUpsertCustomers\<close> when every error object of the store lets
  the permission test return a value. The success and error counts add up to the number
  of records. When no chunk fails with the write-permission error, every chunk is
  attempted in order: the stored chunks make up the success count and each failed chunk
  adds exactly its records to the error count. When chunk \<open>k\<close> is the first to fail with
  the write-permission error, the run stops there: the success count is that of the
  chunks stored before \<open>k\<close>, and all other records are counted as errors.
\<close>

lemma bulk_upsert_accounting:
  assumes t: "\<forall>j c. testable (upsert j c)"
  shows "success (fst (bulkUpsertCustomers upsert pf customers)) +
     errorCount (fst (bulkUpsertCustomers upsert pf customers)) = int (length customers) \<and>
   ((\<forall>j < chunk_count customers. \<not> fatal (outcome_at upsert (map (toDbRow pf) customers) j)) \<longrightarrow>
      success (fst (bulkUpsertCustomers upsert pf customers)) =
        stored_between upsert (map (toDbRow pf) customers) 0 (chunk_count customers) \<and>
      errorCount (fst (bulkUpsertCustomers upsert pf customers)) =
        failed_between upsert (map (toDbRow pf) customers) 0 (chunk_count customers)) \<and>
   (\<forall>k < chunk_count customers.
      fatal (outcome_at upsert (map (toDbRow pf) customers) k) \<and>
      (\<forall>j < k. \<not> fatal (outcome_at upsert (map (toDbRow pf) customers) j)) \<longrightarrow>
      fst (bulkUpsertCustomers upsert pf customers) =
        \<lparr>success = stored_between upsert (map (toDbRow pf) customers) 0 k,
         errorCount = int (length customers) -
           stored_between upsert (map (toDbRow pf) customers) 0 k,
         error = WritePermissionDenied\<rparr>)"
proof (cases "customers = []")
  case True
  then show ?thesis
    by (simp add: bulkUpsertCustomers_def chunk_count_def CHUNK_SIZE_def
        stored_between_def failed_between_def)
next
  case False
  let ?rows = "map (toDbRow pf) customers"
  let ?r = "fst (bulkUpsertCustomers upsert pf customers)"
  have r: "?r = fst (bulk_loop upsert ?rows (0 * CHUNK_SIZE) 0 0 NoError [])"
    using False by (simp add: bulkUpsertCustomers_def)
  have total: "success ?r + errorCount ?r = int (length customers)"
    using bulk_loop_total [OF t, of 0 0 0 ?rows NoError "[]"] r by simp
  have complete: "success ?r = stored_between upsert ?rows 0 (chunk_count customers) \<and>
      errorCount ?r = failed_between upsert ?rows 0 (chunk_count customers)"
    if "\<forall>j < chunk_count customers. \<not> fatal (outcome_at upsert ?rows j)"
    using bulk_loop_complete [OF t, of 0 ?rows 0 0 NoError "[]"] that
    unfolding r by (simp add: chunk_count_map)
  have abort: "?r = \<lparr>success = stored_between upsert ?rows 0 k,
      errorCount = int (length customers) - stored_between upsert ?rows 0 k,
      error = WritePermissionDenied\<rparr>"
    if "k < chunk_count customers" "fatal (outcome_at upsert ?rows k)"
      "\<forall>j < k. \<not> fatal (outcome_at upsert ?rows j)" for k
    using bulk_loop_abort [OF t, of 0 k ?rows 0 0 NoError "[]"] that
    unfolding r by (simp add: chunk_count_map)
  from total complete abort show ?thesis by blast
qed

text \<open>
  C3. The success and error counts of \<open>bulkUpsertCustomers\<close> do not always add up to the
  number of records. When the store answers a chunk with an error object that has no
  message and a code other than \<open>42501\<close>, the chunk is added to the error count, the
  permission test then throws on the missing message, and the \<open>catch\<close> adds the chunk
  a second time. For 201 records whose first chunk is answered this way and whose second
  chunk is stored, the result is 1 success and 400 errors.
\<close>

theorem bulk_upsert_double_count:
  "fst (bulkUpsertCustomers
      (\<lambda>i chunk. if i = 0 then Rejected \<lparr>code = lit ''500'', message = None\<rparr>
                  else Upserted)
      (\<lambda>s. 0 :: nat)
      (replicate 201 \<lparr>installationNumber = lit ''7'', name = lit ''Ali'', phone = [],
         address = [], latitude = None, longitude = None\<rparr>)) =
     \<lparr>success = 1, errorCount = 400, error = IncludesOfUndefined\<rparr>"
proof -
  let ?c = "\<lparr>installationNumber = lit ''7'', name = lit ''Ali'', phone = [],
         address = [], latitude = None, longitude = None\<rparr>"
  let ?pf = "\<lambda>s::jsstring. 0 :: nat"
  let ?rows = "replicate 201 (toDbRow ?pf ?c)"
  let ?up = "\<lambda>(i::nat) (chunk::nat supabase_customer list).
      if i = 0 then Rejected \<lparr>code = lit ''500'', message = None\<rparr> else Upserted"
  have th: "permissionTestThrows \<lparr>code = lit ''500'', message = None\<rparr>"
    by (simp add: permissionTestThrows_def lit_def)
  have "bulk_loop ?up ?rows 0 0 0 NoError [] =
      bulk_loop ?up ?rows (0 + CHUNK_SIZE) 0
        (0 + int (length (take CHUNK_SIZE (drop 0 ?rows))) +
         int (length (take CHUNK_SIZE (drop 0 ?rows)))) IncludesOfUndefined
        ([] @ [(processed_upto ?rows 0, length ?rows,
              0 + int (length (take CHUNK_SIZE (drop 0 ?rows))) +
              int (length (take CHUNK_SIZE (drop 0 ?rows))))])"
    by (rule bulk_loop_twice [where err = "\<lparr>code = lit ''500'', message = None\<rparr>"])
      (simp_all add: th)
  also have "\<dots> = bulk_loop ?up ?rows 200 0 400 IncludesOfUndefined [(200, 201, 400)]"
    by (simp add: CHUNK_SIZE_def processed_upto_def)
  also have "\<dots> = bulk_loop ?up ?rows (200 + CHUNK_SIZE)
        (0 + int (length (take CHUNK_SIZE (drop 200 ?rows)))) 400 IncludesOfUndefined
        ([(200, 201, 400)] @ [(processed_upto ?rows 200, length ?rows, 400)])"
    by (rule bulk_loop_stored) simp_all
  also have "\<dots> = bulk_loop ?up ?rows 400 1 400 IncludesOfUndefined
        [(200, 201, 400), (201, 201, 400)]"
    by (simp add: CHUNK_SIZE_def processed_upto_def)
  also have "\<dots> = (\<lparr>success = 1, errorCount = 400, error = IncludesOfUndefined\<rparr>,
        [(200, 201, 400), (201, 201, 400)])"
    by (rule bulk_loop_done) simp
  finally show ?thesis
    by (simp add: bulkUpsertCustomers_def)
qed

section \<open>Properties of name masking\<close>

lemma maskPart_no_space: "32 \<notin> set p \<Longrightarrow> 32 \<notin> set (maskPart p)"
  by (auto simp: maskPart_def lit_def dest: in_set_takeD)

text \<open>
  C10 (as amended). For an unrestricted user the name is shown as it is. For a restricted
  user the name is cut at every space (U+0020), and each of these parts is shown masked:
  a part of more than two code units as its first two followed by three asterisks, a
  shorter part as it is. The masked name has the same number of parts, in the same order.
\<close>

theorem maskName_rule:
  "maskName True fullName = fullName \<and>
   length (split_on 32 (maskName False fullName)) = length (split_on 32 fullName) \<and>
   (\<forall>i < length (split_on 32 fullName).
      split_on 32 (maskName False fullName) ! i =
        (if length (split_on 32 fullName ! i) > 2
         then take 2 (split_on 32 fullName ! i) @ lit ''***''
         else split_on 32 fullName ! i))"
proof -
  let ?parts = "split_on 32 fullName"
  have "32 \<notin> set (maskPart p)" if "p \<in> set ?parts" for p
    using that by (simp add: maskPart_no_space split_on_no_sep)
  then have "\<forall>p \<in> set (map maskPart ?parts). 32 \<notin> set p"
    by auto
  then have "split_on 32 (join [32] (map maskPart ?parts)) = map maskPart ?parts"
    by (intro split_on_join) (simp_all add: split_on_nonempty)
  then have parts: "split_on 32 (maskName False fullName) = map maskPart ?parts"
    by (simp add: maskName_def lit_def)
  show ?thesis
    unfolding parts by (auto simp: maskName_def maskPart_def)
qed

theorem maskName_rule_witness:
  "maskName True (lit ''Ali Veli'') = lit ''Ali Veli'' \<and>
   split_on 32 (maskName False (lit ''Ay Veli'')) ! 0 = lit ''Ay'' \<and>
   split_on 32 (maskName False (lit ''Ay Veli'')) ! 1 = lit ''Ve***''"
proof -
  have parts: "split_on 32 (lit ''Ay Veli'') = [lit ''Ay'', lit ''Veli'']"
    by (simp add: lit_def)
  from maskName_rule [of "lit ''Ali Veli''"] maskName_rule [of "lit ''Ay Veli''"]
  show ?thesis
    by (simp add: parts lit_def)
qed

text \<open>
  The parts are not the white-space separated words of the name: a tab is white space,
  but the name is not cut there, and what follows the second code unit is lost.
\<close>

theorem maskName_counterexample:
  "isWhiteSpace 9 \<and>
   maskName False (lit ''Ali'' @ [9] @ lit ''Veli'') = lit ''Al***'' \<and>
   \<not> str_includes (maskName False (lit ''Ali'' @ [9] @ lit ''Veli'')) (lit ''Ve***'')"
  by (simp add: maskName_def maskPart_def lit_def isWhiteSpace_def)

section \<open>Properties of the usage statistics\<close>

lemma timestamps_of_snoc:
  "timestamps_of (rows @ [x]) u =
     timestamps_of rows u @ (if log_username x = Some u then [created_at x] else [])"
  by (simp add: timestamps_of_def)

lemma timestamps_of_nonempty:
  "timestamps_of rows u \<noteq> [] \<longleftrightarrow> (\<exists>r \<in> set rows. log_username r = Some u)"
  by (simp add: timestamps_of_def filter_empty_conv)

text \<open>
  What the object \<open>stats\<close> holds after the rows \<open>rows\<close>, when none of their
  usernames finds an inherited value: a key for every non-empty username of a row, once,
  with the number of its rows and the latest of their timestamps.
\<close>

lemma count_log_step:
  assumes d: "distinct (stat_keys s)"
    and k: "set (stat_keys s) = {u. u \<noteq> [] \<and> timestamps_of rows u \<noteq> []}"
    and e: "\<And>u. stat_entries s u =
        (if u \<noteq> [] \<and> timestamps_of rows u \<noteq> []
         then Some (length (timestamps_of rows u), Some (Max (set (timestamps_of rows u))))
         else None)"
    and p: "prototype_dated s = dated"
    and own: "\<And>u. log_username x = Some u \<Longrightarrow> \<not> inherited dated u"
  shows "distinct (stat_keys (count_log s x)) \<and>
     set (stat_keys (count_log s x)) = {u. u \<noteq> [] \<and> timestamps_of (rows @ [x]) u \<noteq> []} \<and>
     (\<forall>u. stat_entries (count_log s x) u =
        (if u \<noteq> [] \<and> timestamps_of (rows @ [x]) u \<noteq> []
         then Some (length (timestamps_of (rows @ [x]) u),
                    Some (Max (set (timestamps_of (rows @ [x]) u))))
         else None)) \<and>
     prototype_dated (count_log s x) = dated"
proof (cases "log_username x")
  case None
  then show ?thesis using d k e p by (simp add: count_log_def timestamps_of_snoc)
next
  case (Some v)
  show ?thesis
  proof (cases "v = []")
    case True
    with Some show ?thesis using d k e p by (auto simp: count_log_def timestamps_of_snoc)
  next
    case False
    from own [OF Some] p have ni: "\<not> inherited (prototype_dated s) v" by simp
    show ?thesis
    proof (cases "timestamps_of rows v = []")
      case True
      then have new: "stat_entries s v = None" "v \<notin> set (stat_keys s)"
        using e [of v] k by simp_all
      have cl: "count_log s x =
          s\<lparr>stat_keys := stat_keys s @ [v],
            stat_entries := (stat_entries s)(v \<mapsto> (1, Some (created_at x)))\<rparr>"
        using Some False new ni by (simp add: count_log_def)
      show ?thesis
        unfolding cl using d k e p True Some False new
        by (auto simp: timestamps_of_snoc)
    next
      case nonempty: False
      then have old: "stat_entries s v =
          Some (length (timestamps_of rows v), Some (Max (set (timestamps_of rows v))))"
        using e [of v] False by simp
      have cl: "count_log s x =
          s\<lparr>stat_entries := (stat_entries s)(v \<mapsto>
             (length (timestamps_of rows v) + 1,
              Some (max (created_at x) (Max (set (timestamps_of rows v))))))\<rparr>"
        using Some False old by (auto simp: count_log_def max_def Let_def)
      have mx: "Max (set (timestamps_of rows v @ [created_at x])) =
          max (created_at x) (Max (set (timestamps_of rows v)))"
        using nonempty by simp
      show ?thesis
        unfolding cl using d k e p nonempty Some False mx
        by (auto simp: timestamps_of_snoc)
    qed
  qed
qed

lemma count_log_fold:
  assumes "\<forall>r \<in> set rows. \<forall>u. log_username r = Some u \<longrightarrow> \<not> inherited dated u"
  shows "distinct (stat_keys (foldl count_log (empty_stats dated) rows)) \<and>
   set (stat_keys (foldl count_log (empty_stats dated) rows)) =
     {u. u \<noteq> [] \<and> timestamps_of rows u \<noteq> []} \<and>
   (\<forall>u. stat_entries (foldl count_log (empty_stats dated) rows) u =
      (if u \<noteq> [] \<and> timestamps_of rows u \<noteq> []
       then Some (length (timestamps_of rows u), Some (Max (set (timestamps_of rows u))))
       else None)) \<and>
   prototype_dated (foldl count_log (empty_stats dated) rows) = dated"
  using assms
proof (induction rows rule: rev_induct)
  case Nil
  show ?case by (simp add: empty_stats_def timestamps_of_def)
next
  case (snoc x rows)
  then have own: "\<And>u. log_username x = Some u \<Longrightarrow> \<not> inherited dated u"
    and IH: "distinct (stat_keys (foldl count_log (empty_stats dated) rows)) \<and>
      set (stat_keys (foldl count_log (empty_stats dated) rows)) =
        {u. u \<noteq> [] \<and> timestamps_of rows u \<noteq> []} \<and>
      (\<forall>u. stat_entries (foldl count_log (empty_stats dated) rows) u =
        (if u \<noteq> [] \<and> timestamps_of rows u \<noteq> []
         then Some (length (timestamps_of rows u), Some (Max (set (timestamps_of rows u))))
         else None)) \<and>
      prototype_dated (foldl count_log (empty_stats dated) rows) = dated"
    by simp_all
  from IH show ?case
    using count_log_step [of "foldl count_log (empty_stats dated) rows" rows dated x, OF _ _ _ _ own]
    by simp
qed

lemma set_object_keys: "set (object_keys keys) = set keys"
  by (auto simp: object_keys_def)

lemma distinct_object_keys: "distinct keys \<Longrightarrow> distinct (object_keys keys)"
  by (auto simp: object_keys_def)

text \<open>
  C8 (as amended). When the view gives an error or no data, the result is computed from
  the raw log rows. Provided no row's username is the name of a property that the plain
  object \<open>stats\<close> inherits from \<open>Object.prototype\<close> (such as \<open>constructor\<close>,
  \<open>toString\<close> or \<open>__proto__\<close>), there is one entry for every distinct non-empty
  username of a row (rows whose username is \<open>null\<close> or empty are skipped), with the
  number of that user's rows as \<open>queryCount\<close> and the formatted latest timestamp of
  these rows as \<open>lastLogin\<close>. When the logs cannot be read either, the result is the
  empty list.
\<close>

theorem stats_fallback_exact:
  assumes "resp_error view \<noteq> None \<or> resp_data view = None"
  shows "(resp_error logs = None \<and> resp_data logs = Some rows \<and>
      (\<forall>r \<in> set rows. \<forall>u. log_username r = Some u \<longrightarrow> \<not> inherited dated u) \<longrightarrow>
      distinct (map stat_username (fst (getUserActivityStats dateStr timeStr dated view logs))) \<and>
      set (map stat_username (fst (getUserActivityStats dateStr timeStr dated view logs))) =
        {u. u \<noteq> [] \<and> (\<exists>r \<in> set rows. log_username r = Some u)} \<and>
      (\<forall>s \<in> set (fst (getUserActivityStats dateStr timeStr dated view logs)).
         queryCount s = length (timestamps_of rows (stat_username s)) \<and>
         lastLogin s =
           formatDate dateStr timeStr (Max (set (timestamps_of rows (stat_username s)))))) \<and>
    (resp_error logs \<noteq> None \<longrightarrow>
       fst (getUserActivityStats dateStr timeStr dated view logs) = [])"
proof -
  let ?stats = "foldl count_log (empty_stats dated) rows"
  let ?out = "fst (getUserActivityStats dateStr timeStr dated view logs)"
  have fb: "?out =
      (case resp_error logs of
         Some logError \<Rightarrow> []
       | None \<Rightarrow> (case resp_data logs of
            None \<Rightarrow> []
          | Some rows \<Rightarrow>
              map (stat_of_entry dateStr timeStr (foldl count_log (empty_stats dated) rows))
                (object_keys (stat_keys (foldl count_log (empty_stats dated) rows)))))"
    using assms by (auto simp: getUserActivityStats_def Let_def split: option.splits)
  have unreadable: "?out = []" if "resp_error logs \<noteq> None"
    using that by (auto simp: fb)
  have names: "map stat_username
        (map (stat_of_entry dateStr timeStr ?stats) (object_keys (stat_keys ?stats))) =
      object_keys (stat_keys ?stats)"
    by (simp add: stat_of_entry_def Let_def comp_def)
  have readable: "distinct (map stat_username ?out) \<and>
      set (map stat_username ?out) =
        {u. u \<noteq> [] \<and> (\<exists>r \<in> set rows. log_username r = Some u)} \<and>
      (\<forall>s \<in> set ?out.
         queryCount s = length (timestamps_of rows (stat_username s)) \<and>
         lastLogin s =
           formatDate dateStr timeStr (Max (set (timestamps_of rows (stat_username s)))))"
    if r: "resp_error logs = None" "resp_data logs = Some rows"
      and own: "\<forall>r \<in> set rows. \<forall>u. log_username r = Some u \<longrightarrow> \<not> inherited dated u"
  proof -
    note fold = count_log_fold [OF own]
    have out: "?out = map (stat_of_entry dateStr timeStr ?stats) (object_keys (stat_keys ?stats))"
      using r by (simp add: fb)
    have entry: "queryCount (stat_of_entry dateStr timeStr ?stats u) =
          length (timestamps_of rows u) \<and>
        lastLogin (stat_of_entry dateStr timeStr ?stats u) =
          formatDate dateStr timeStr (Max (set (timestamps_of rows u)))"
      if "u \<in> set (stat_keys ?stats)" for u
      using that fold by (simp add: stat_of_entry_def Let_def)
    have "\<forall>s \<in> set (map (stat_of_entry dateStr timeStr ?stats) (object_keys (stat_keys ?stats))).
        queryCount s = length (timestamps_of rows (stat_username s)) \<and>
        lastLogin s =
          formatDate dateStr timeStr (Max (set (timestamps_of rows (stat_username s))))"
    proof
      fix s
      assume "s \<in> set (map (stat_of_entry dateStr timeStr ?stats) (object_keys (stat_keys ?stats)))"
      then obtain u where u: "u \<in> set (stat_keys ?stats)"
        and s: "s = stat_of_entry dateStr timeStr ?stats u"
        by (auto simp: set_object_keys)
      have "stat_username s = u" by (simp add: s stat_of_entry_def Let_def)
      with entry [OF u] s show "queryCount s = length (timestamps_of rows (stat_username s)) \<and>
        lastLogin s =
          formatDate dateStr timeStr (Max (set (timestamps_of rows (stat_username s))))"
        by simp
    qed
    then show ?thesis
      unfolding out names using fold
      by (simp add: timestamps_of_nonempty set_object_keys distinct_object_keys)
  qed
  from readable unreadable show ?thesis by blast
qed

theorem stats_fallback_exact_witness:
  "map stat_username (fst (getUserActivityStats (\<lambda>t. decimal (nat t)) (\<lambda>t. lit ''h'') False
      \<lparr>resp_data = None, resp_error = Some \<lparr>code = lit ''42P01'', message = None\<rparr>\<rparr>
      \<lparr>resp_data = Some
         [\<lparr>log_username = Some (lit ''2002''), log_installation_number = lit ''7'', created_at = 5\<rparr>,
          \<lparr>log_username = Some (lit ''1001''), log_installation_number = lit ''7'', created_at = 7\<rparr>,
          \<lparr>log_username = Some (lit ''2002''), log_installation_number = lit ''8'', created_at = 9\<rparr>],
        resp_error = None\<rparr>)) = [lit ''1001'', lit ''2002''] \<and>
   queryCount (fst (getUserActivityStats (\<lambda>t. decimal (nat t)) (\<lambda>t. lit ''h'') False
      \<lparr>resp_data = None, resp_error = Some \<lparr>code = lit ''42P01'', message = None\<rparr>\<rparr>
      \<lparr>resp_data = Some
         [\<lparr>log_username = Some (lit ''2002''), log_installation_number = lit ''7'', created_at = 5\<rparr>,
          \<lparr>log_username = Some (lit ''1001''), log_installation_number = lit ''7'', created_at = 7\<rparr>,
          \<lparr>log_username = Some (lit ''2002''), log_installation_number = lit ''8'', created_at = 9\<rparr>],
        resp_error = None\<rparr>) ! 1) = 2 \<and>
   lastLogin (fst (getUserActivityStats (\<lambda>t. decimal (nat t)) (\<lambda>t. lit ''h'') False
      \<lparr>resp_data = None, resp_error = Some \<lparr>code = lit ''42P01'', message = None\<rparr>\<rparr>
      \<lparr>resp_data = Some
         [\<lparr>log_username = Some (lit ''2002''), log_installation_number = lit ''7'', created_at = 5\<rparr>,
          \<lparr>log_username = Some (lit ''1001''), log_installation_number = lit ''7'', created_at = 7\<rparr>,
          \<lparr>log_username = Some (lit ''2002''), log_installation_number = lit ''8'', created_at = 9\<rparr>],
        resp_error = None\<rparr>) ! 1) = lit ''9 h'' \<and>
   fst (getUserActivityStats (\<lambda>t. decimal (nat t)) (\<lambda>t. lit ''h'') False
      \<lparr>resp_data = None, resp_error = Some \<lparr>code = lit ''42P01'', message = None\<rparr>\<rparr>
      \<lparr>resp_data = None, resp_error = Some \<lparr>code = lit ''42501'', message = None\<rparr>\<rparr>) = []"
proof -
  let ?d = "\<lambda>t. decimal (nat t)"
  let ?t = "\<lambda>t::int. lit ''h''"
  let ?view = "\<lparr>resp_data = None :: stats_view_row list option,
      resp_error = Some \<lparr>code = lit ''42P01'', message = None\<rparr>\<rparr>"
  let ?rows = "[\<lparr>log_username = Some (lit ''2002''), log_installation_number = lit ''7'', created_at = 5\<rparr>,
          \<lparr>log_username = Some (lit ''1001''), log_installation_number = lit ''7'', created_at = 7\<rparr>,
          \<lparr>log_username = Some (lit ''2002''), log_installation_number = lit ''8'', created_at = 9\<rparr>]"
  let ?logs = "\<lparr>resp_data = Some ?rows, resp_error = None\<rparr>"
  let ?bad = "\<lparr>resp_data = None :: search_log list option,
      resp_error = Some \<lparr>code = lit ''42501'', message = None\<rparr>\<rparr>"
  let ?out = "fst (getUserActivityStats ?d ?t False ?view ?logs)"
  have fb: "resp_error ?view \<noteq> None \<or> resp_data ?view = None" by simp
  have own: "\<forall>r \<in> set ?rows. \<forall>u. log_username r = Some u \<longrightarrow> \<not> inherited False u"
    by (simp add: inherited_def OBJECT_PROTOTYPE_NAMES_def lit_def)
  have ts: "timestamps_of ?rows (lit ''2002'') = [5, 9]"
    by (simp add: timestamps_of_def lit_def)
  have fm: "formatDate ?d ?t 9 = lit ''9 h''"
    by (simp add: formatDate_def decimal.simps lit_def)
  note exact = stats_fallback_exact [OF fb, where logs = ?logs and rows = ?rows
      and dated = False and dateStr = ?d and timeStr = ?t]
  from exact own have d: "distinct (map stat_username ?out)"
    and names: "set (map stat_username ?out) =
        {u. u \<noteq> [] \<and> (\<exists>r \<in> set ?rows. log_username r = Some u)}"
    and each: "\<forall>s \<in> set ?out.
         queryCount s = length (timestamps_of ?rows (stat_username s)) \<and>
         lastLogin s = formatDate ?d ?t (Max (set (timestamps_of ?rows (stat_username s))))"
    by simp_all
  have out: "map stat_username ?out = [lit ''1001'', lit ''2002'']"
    by (simp add: getUserActivityStats_def count_log_def empty_stats_def stat_of_entry_def
        inherited_def OBJECT_PROTOTYPE_NAMES_def object_keys_def is_array_index_def
        digits_value_def Let_def lit_def)
  then have len: "length ?out = 2"
    using length_map [of stat_username ?out] by simp
  then have second_in: "?out ! 1 \<in> set ?out" by simp
  from out len have second_name: "stat_username (?out ! 1) = lit ''2002''"
    using nth_map [of 1 ?out stat_username] by simp
  from each second_in
  have "queryCount (?out ! 1) = length (timestamps_of ?rows (stat_username (?out ! 1))) \<and>
    lastLogin (?out ! 1) =
      formatDate ?d ?t (Max (set (timestamps_of ?rows (stat_username (?out ! 1)))))"
    by blast
  then have "queryCount (?out ! 1) = 2 \<and> lastLogin (?out ! 1) = lit ''9 h''"
    unfolding second_name ts by (simp add: fm)
  moreover from stats_fallback_exact [OF fb, where logs = ?bad and rows = "[]"
      and dated = False and dateStr = ?d and timeStr = ?t]
  have "fst (getUserActivityStats ?d ?t False ?view ?bad) = []" by simp
  ultimately show ?thesis using out by simp
qed

text \<open>
  The claim as stated fails for a log row whose username is the empty string: that
  username appears in the logs and gets no entry, because the guard
  \<open>if (!username) return\<close> skips the row.
\<close>

theorem stats_fallback_counterexample:
  "fst (getUserActivityStats (\<lambda>t. decimal (nat t)) (\<lambda>t. lit ''h'') False
      \<lparr>resp_data = None, resp_error = Some \<lparr>code = lit ''42P01'', message = None\<rparr>\<rparr>
      \<lparr>resp_data = Some
         [\<lparr>log_username = Some [], log_installation_number = lit ''7'', created_at = 5\<rparr>],
        resp_error = None\<rparr>) = []"
  by (simp add: getUserActivityStats_def count_log_def empty_stats_def object_keys_def)

text \<open>
  A user named \<open>constructor\<close> gets no entry either: \<open>stats['constructor']\<close> finds the
  function inherited from \<open>Object.prototype\<close>, so the test \<open>!stats[username]\<close> is
  false and no own key is made. A row named \<open>__proto__\<close> leaves a \<open>lastLoginDate\<close>
  on the prototype, after which a user named \<open>lastLoginDate\<close> gets no entry.
\<close>

lemma inherited_name_not_counted:
  "getUserActivityStats (\<lambda>t. decimal (nat t)) (\<lambda>t. lit ''h'') False
      \<lparr>resp_data = None, resp_error = Some \<lparr>code = lit ''42P01'', message = None\<rparr>\<rparr>
      \<lparr>resp_data = Some
         [\<lparr>log_username = Some (lit ''constructor''), log_installation_number = lit ''7'',
           created_at = 5\<rparr>],
        resp_error = None\<rparr> = ([], False) \<and>
   getUserActivityStats (\<lambda>t. decimal (nat t)) (\<lambda>t. lit ''h'') False
      \<lparr>resp_data = None, resp_error = Some \<lparr>code = lit ''42P01'', message = None\<rparr>\<rparr>
      \<lparr>resp_data = Some
         [\<lparr>log_username = Some (lit ''__proto__''), log_installation_number = lit ''7'',
           created_at = 5\<rparr>,
          \<lparr>log_username = Some (lit ''lastLoginDate''), log_installation_number = lit ''7'',
           created_at = 6\<rparr>],
        resp_error = None\<rparr> = ([], True)"
  by (simp add: getUserActivityStats_def count_log_def empty_stats_def inherited_def
      OBJECT_PROTOTYPE_NAMES_def object_keys_def lit_def)

text \<open>
  The entries come in the order of \<open>Object.keys\<close>: usernames that are array indices
  first, in ascending order, then the others in the order of their first row.
\<close>

lemma entries_in_key_order:
  "map stat_username (fst (getUserActivityStats (\<lambda>t. decimal (nat t)) (\<lambda>t. lit ''h'') False
      \<lparr>resp_data = None, resp_error = Some \<lparr>code = lit ''42P01'', message = None\<rparr>\<rparr>
      \<lparr>resp_data = Some
         [\<lparr>log_username = Some (lit ''veli''), log_installation_number = lit ''7'', created_at = 5\<rparr>,
          \<lparr>log_username = Some (lit ''2002''), log_installation_number = lit ''7'', created_at = 6\<rparr>,
          \<lparr>log_username = Some (lit ''007''), log_installation_number = lit ''7'', created_at = 7\<rparr>,
          \<lparr>log_username = Some (lit ''1001''), log_installation_number = lit ''7'', created_at = 8\<rparr>],
        resp_error = None\<rparr>)) = map lit [''1001'', ''2002'', ''veli'', ''007'']"
  by (simp add: getUserActivityStats_def count_log_def empty_stats_def stat_of_entry_def
      inherited_def OBJECT_PROTOTYPE_NAMES_def object_keys_def is_array_index_def
      digits_value_def Let_def lit_def)

section \<open>Properties of the cached lookup\<close>






section \<open>Properties of the search log\<close>


lemma performSearch_blank:
  "trim searchTerm = [] \<Longrightarrow>
   performSearch mapLinks numToString now_read now_write fault tbl log_outcome db_now uname
     (view, w, logs) searchTerm = (view, w, logs)"
  by (simp add: performSearch_def)

lemma performSearch_logs:
  "trim searchTerm \<noteq> [] \<Longrightarrow>
   snd (snd (performSearch mapLinks numToString now_read now_write fault tbl log_outcome db_now
     uname (view, w, logs) searchTerm)) =
   snd (logSearchQuery log_outcome db_now logs uname (trim searchTerm))"
  by (simp add: performSearch_def Let_def split: prod.splits sum.splits)

lemma performSearch_view_world:
  "fst (performSearch mapLinks numToString now_read now_write fault tbl o1 db_now uname
     (view, w, logs) searchTerm) =
   fst (performSearch mapLinks numToString now_read now_write fault tbl o2 db_now uname
     (view, w, logs) searchTerm) \<and>
   fst (snd (performSearch mapLinks numToString now_read now_write fault tbl o1 db_now uname
     (view, w, logs) searchTerm)) =
   fst (snd (performSearch mapLinks numToString now_read now_write fault tbl o2 db_now uname
     (view, w, logs) searchTerm))"
  by (simp add: performSearch_def Let_def split: prod.splits sum.splits)

text \<open>
  C9. \<open>logSearchQuery\<close> never raises, whatever the insert does. What a search shows and
  what it leaves in the cache do not depend on what happens to the log entry. After a
  successful lookup the customer is shown, and when the insert is stored the log has one
  more row, with the acting username and the queried (trimmed) installation number.
\<close>

theorem search_logging:
  "fst (logSearchQuery outcome db_now logs uname number) = Inr () \<and>
   fst (performSearch mapLinks numToString now_read now_write fault tbl o1 db_now uname
     (view, w, logs) searchTerm) =
   fst (performSearch mapLinks numToString now_read now_write fault tbl o2 db_now uname
     (view, w, logs) searchTerm) \<and>
   fst (snd (performSearch mapLinks numToString now_read now_write fault tbl o1 db_now uname
     (view, w, logs) searchTerm)) =
   fst (snd (performSearch mapLinks numToString now_read now_write fault tbl o2 db_now uname
     (view, w, logs) searchTerm)) \<and>
   (trim searchTerm \<noteq> [] \<and>
    fst (findCustomerByInstallationNumber numToString now_read now_write fault tbl w (trim searchTerm)) =
      Inr customer \<longrightarrow>
      foundCustomer (fst (performSearch mapLinks numToString now_read now_write fault tbl
        log_outcome db_now uname (view, w, logs) searchTerm)) = Some customer \<and>
      snd (snd (performSearch mapLinks numToString now_read now_write fault tbl Inserted db_now
        uname (view, w, logs) searchTerm)) =
        logs @ [\<lparr>log_username = Some uname, log_installation_number = trim searchTerm,
                  created_at = db_now\<rparr>])"
proof -
  have never: "fst (logSearchQuery outcome db_now logs uname number) = Inr ()"
    by (cases outcome) (simp_all add: logSearchQuery_def)
  have shown: "foundCustomer (fst (performSearch mapLinks numToString now_read now_write fault tbl
        log_outcome db_now uname (view, w, logs) searchTerm)) = Some customer"
    if "trim searchTerm \<noteq> []"
      "fst (findCustomerByInstallationNumber numToString now_read now_write fault tbl w
        (trim searchTerm)) = Inr customer"
    using that
    by (cases "findCustomerByInstallationNumber numToString now_read now_write fault tbl w
        (trim searchTerm)"; cases "mapLinks customer")
      (auto simp: performSearch_def Let_def split: prod.splits)
  have logged: "snd (snd (performSearch mapLinks numToString now_read now_write fault tbl Inserted
        db_now uname (view, w, logs) searchTerm)) =
      logs @ [\<lparr>log_username = Some uname, log_installation_number = trim searchTerm,
                created_at = db_now\<rparr>]"
    if "trim searchTerm \<noteq> []"
    using that by (simp add: performSearch_logs logSearchQuery_def)
  from never performSearch_view_world [of mapLinks numToString now_read now_write fault tbl o1
      db_now uname view w logs searchTerm o2] shown logged
  show ?thesis by blast
qed


theorem search_logging_witness:
  "foundCustomer (fst (performSearch (\<lambda>c. Inr (None, None)) decimal 10 11 None
      [\<lparr>db_id = Some 1, installation_number = lit ''7'', db_name = lit ''Veli'', db_phone = [],
        db_address = [], db_latitude = None, db_longitude = None\<rparr>]
      InsertThrew 99 (lit ''1001'')
      (\<lparr>foundCustomer = None, search_error = None, mapEmbedUrl = None, externalMapUrl = None,
         searchPerformed = False, recentSearches = []\<rparr>,
       \<lparr>storage = \<lparr>items = Map.empty, storage_readable = True, storage_writable = True\<rparr>,
         queries = []\<rparr>,
       [])
      (lit '' 7''))) =
     Some \<lparr>installationNumber = lit ''7'', name = lit ''Veli'', phone = [], address = [],
       latitude = None, longitude = None\<rparr> \<and>
   snd (snd (performSearch (\<lambda>c. Inr (None, None)) decimal 10 11 None
      [\<lparr>db_id = Some 1, installation_number = lit ''7'', db_name = lit ''Veli'', db_phone = [],
        db_address = [], db_latitude = None, db_longitude = None\<rparr>]
      Inserted 99 (lit ''1001'')
      (\<lparr>foundCustomer = None, search_error = None, mapEmbedUrl = None, externalMapUrl = None,
         searchPerformed = False, recentSearches = []\<rparr>,
       \<lparr>storage = \<lparr>items = Map.empty, storage_readable = True, storage_writable = True\<rparr>,
         queries = []\<rparr>,
       [])
      (lit '' 7''))) =
     [\<lparr>log_username = Some (lit ''1001''), log_installation_number = lit ''7'',
       created_at = 99\<rparr>]"
proof -
  let ?row = "\<lparr>db_id = Some 1, installation_number = lit ''7'', db_name = lit ''Veli'',
        db_phone = [], db_address = [], db_latitude = None :: nat option,
        db_longitude = None\<rparr>"
  let ?view = "\<lparr>foundCustomer = None, search_error = None, mapEmbedUrl = None,
         externalMapUrl = None, searchPerformed = False, recentSearches = []\<rparr>"
  let ?w = "\<lparr>storage = \<lparr>items = Map.empty, storage_readable = True, storage_writable = True\<rparr>,
         queries = []\<rparr>"
  let ?c = "\<lparr>installationNumber = lit ''7'', name = lit ''Veli'', phone = [], address = [],
       latitude = None, longitude = None\<rparr>"
  have t: "trim (lit '' 7'') = lit ''7''"
    by (simp add: trim_def isWhiteSpace_def lit_def)
  have ne: "lit ''7'' \<noteq> []"
    by (simp add: lit_def)
  have f: "fst (findCustomerByInstallationNumber decimal 10 11 None [?row] ?w (lit ''7'')) = Inr ?c"
    by (simp add: findCustomerByInstallationNumber_def getFromCache_def single_def
        mapSupabaseCustomerToApp_def Let_def)
  from search_logging [where outcome = InsertThrew and db_now = 99 and logs = "[]"
      and uname = "lit ''1001''" and number = "lit ''7''"
      and mapLinks = "\<lambda>c. Inr (None, None)" and numToString = decimal
      and now_read = 10 and now_write = 11 and fault = None and tbl = "[?row]"
      and ?o1.0 = InsertThrew and ?o2.0 = InsertThrew and view = ?view and w = ?w
      and searchTerm = "lit '' 7''" and customer = ?c and log_outcome = InsertThrew]
  show ?thesis
    by (simp add: t ne f)
qed

section \<open>Properties of the CSV export and import\<close>


lemma str_includes_single: "str_includes s [c] \<longleftrightarrow> c \<in> set s"
  by (induction s) auto

lemma dropWhile_stop:
  "\<not> P y \<Longrightarrow> dropWhile P (xs @ y # ys) = dropWhile P xs @ y # ys"
  by (induction xs) simp_all

lemma not_white: "\<not> isWhiteSpace 59" "\<not> isWhiteSpace 34"
  by (simp_all add: isWhiteSpace_def)

lemma trim_quoted: "trim (quoted s) = quoted s"
  by (simp add: trim_def quoted_def not_white)

lemma strip_quotes_quoted: "strip_quotes (quoted s) = s"
  by (simp add: strip_quotes_def quoted_def)

lemma trim_trimmed_start: "trim (dropWhile isWhiteSpace s) = trim s"
  by (simp add: trim_def)

text \<open>
  A line trimmed: the first column loses its leading white space, and only what follows
  the last separator can lose something at the end.
\<close>

lemma trim_line:
  "trim (a @ 59 # p @ 59 # t) =
     dropWhile isWhiteSpace a @ 59 # p @ 59 # rev (dropWhile isWhiteSpace (rev t))"
proof -
  have "dropWhile isWhiteSpace (a @ 59 # p @ 59 # t) =
      (dropWhile isWhiteSpace a @ 59 # p) @ 59 # t"
    using dropWhile_stop [of isWhiteSpace 59 a "p @ 59 # t"] not_white(1) by simp
  moreover have "rev (dropWhile isWhiteSpace
        (rev ((dropWhile isWhiteSpace a @ 59 # p) @ 59 # t))) =
      (dropWhile isWhiteSpace a @ 59 # p) @ 59 # rev (dropWhile isWhiteSpace (rev t))"
    using dropWhile_stop [of isWhiteSpace 59 "rev t" "rev (dropWhile isWhiteSpace a @ 59 # p)"]
      not_white(1) by simp
  ultimately show ?thesis by (simp add: trim_def)
qed

lemma plain_quoted: "plain_field s \<Longrightarrow> 59 \<notin> set (quoted s)"
  by (simp add: plain_field_def quoted_def)

text \<open>
  The import of a line that starts with the four text columns of the export gives back
  these four fields, whatever follows them.
\<close>

lemma csvCustomer_line:
  assumes a: "plain_field a" and b: "plain_field b" and c: "plain_field c" and d: "plain_field d"
  shows "map_option customer_fields
       (csvCustomer (a @ 59 # quoted b @ 59 # c @ 59 # quoted d @ 59 # t)) =
     Some (strip_quotes (trim a), b, strip_quotes (trim c), d)"
proof -
  let ?a = "dropWhile isWhiteSpace a"
  let ?t = "rev (dropWhile isWhiteSpace (rev t))"
  let ?line = "?a @ 59 # quoted b @ 59 # c @ 59 # quoted d @ 59 # ?t"
  let ?g = "\<lambda>c. strip_quotes (trim c)"
  have t: "trim (a @ 59 # quoted b @ 59 # c @ 59 # quoted d @ 59 # t) = ?line"
    using trim_line [of a "quoted b @ 59 # c @ 59 # quoted d" t] by simp
  have ne: "?line \<noteq> []" by simp
  have semi: "str_includes ?line (lit '';'')"
    by (simp add: lit_def str_includes_single)
  from a have a': "59 \<notin> set ?a"
    by (auto simp: plain_field_def dest: set_dropWhileD)
  from c have c': "59 \<notin> set c" by (simp add: plain_field_def)
  have "split_on 59 ?line = ?a # split_on 59 (quoted b @ 59 # c @ 59 # quoted d @ 59 # ?t)"
    using a' by (rule split_on_append)
  also have "split_on 59 (quoted b @ 59 # c @ 59 # quoted d @ 59 # ?t) =
      quoted b # split_on 59 (c @ 59 # quoted d @ 59 # ?t)"
    using plain_quoted [OF b] by (rule split_on_append)
  also have "split_on 59 (c @ 59 # quoted d @ 59 # ?t) = c # split_on 59 (quoted d @ 59 # ?t)"
    using c' by (rule split_on_append)
  also have "split_on 59 (quoted d @ 59 # ?t) = quoted d # split_on 59 ?t"
    using plain_quoted [OF d] by (rule split_on_append)
  finally have cols: "map ?g (split_on 59 ?line) =
      strip_quotes (trim a) # b # strip_quotes (trim c) # d # map ?g (split_on 59 ?t)"
    by (simp add: trim_trimmed_start trim_quoted strip_quotes_quoted)
  show ?thesis
    unfolding csvCustomer_def t Let_def
    by (simp only: ne semi cols if_True if_False)
      (simp add: col_or_empty_def customer_fields_def)
qed

lemma csvLine_eq:
  "csvLine numTruthy numToString r =
     installation_number r @ 59 # quoted (db_name r) @ 59 # db_phone r @ 59 #
     quoted (db_address r) @ 59 # coordinateText numTruthy numToString (db_latitude r) @ 59 #
     coordinateText numTruthy numToString (db_longitude r)"
  by (simp add: csvLine_def lit_def)

lemma drop_cr_after: "y \<noteq> 13 \<Longrightarrow> drop_cr (p @ y # t) = p @ y # drop_cr t"
  by (simp add: drop_cr_def butlast_append)

lemma csvCustomer_csvLine:
  assumes "exportable numTruthy numToString r"
  shows "map_option customer_fields (csvCustomer (drop_cr (csvLine numTruthy numToString r))) =
     Some (imported_fields r)"
proof -
  let ?e = "coordinateText numTruthy numToString (db_latitude r)"
  let ?f = "coordinateText numTruthy numToString (db_longitude r)"
  have "drop_cr (csvLine numTruthy numToString r) =
      installation_number r @ 59 # quoted (db_name r) @ 59 # db_phone r @ 59 #
      quoted (db_address r) @ 59 # ?e @ 59 # drop_cr ?f"
    using drop_cr_after [of 59 "installation_number r @ 59 # quoted (db_name r) @ 59 #
      db_phone r @ 59 # quoted (db_address r) @ 59 # ?e" ?f]
    by (simp add: csvLine_eq)
  with assms show ?thesis
    by (simp add: csvCustomer_line exportable_def imported_fields_def)
qed

lemma split_lines_nonempty: "split_lines s \<noteq> []"
  by (induction s rule: split_lines.induct) (auto split: list.splits)

text \<open>A line without a line feed is cut off whole, but for a carriage return at its end.\<close>

lemma split_lines_line:
  "10 \<notin> set l \<Longrightarrow> split_lines (l @ 10 # rest) = drop_cr l # split_lines rest"
proof (induction l)
  case Nil
  then show ?case by (simp add: drop_cr_def)
next
  case (Cons c l)
  then have c: "c \<noteq> 10" and l: "10 \<notin> set l" by simp_all
  show ?case
  proof (cases l)
    case Nil
    with c show ?thesis by (simp add: drop_cr_def)
  next
    case (Cons x xs)
    with l have "hd (l @ 10 # rest) \<noteq> 10" by auto
    moreover from Cons have "drop_cr (c # l) = c # drop_cr l" by (simp add: drop_cr_def)
    ultimately show ?thesis using Cons.IH [OF l] c by simp
  qed
qed

lemma export_text:
  "foldl (\<lambda>csvContent row. csvContent @ line row @ [10]) start rows =
     start @ concat (map (\<lambda>row. line row @ [10]) rows)"
  by (induction rows arbitrary: start) simp_all

lemma split_lines_export:
  "\<forall>l \<in> set ls. 10 \<notin> set l \<Longrightarrow>
   split_lines (concat (map (\<lambda>l. l @ [10]) ls)) = map drop_cr ls @ [[]]"
  by (induction ls) (simp_all add: split_lines_line)

lemma csvLine_whole:
  "exportable numTruthy numToString r \<Longrightarrow> 10 \<notin> set (csvLine numTruthy numToString r)"
  by (simp add: csvLine_eq exportable_def plain_field_def quoted_def)

lemma header_whole: "10 \<notin> set CSV_HEADER" "drop_cr CSV_HEADER = CSV_HEADER"
  by (simp_all add: CSV_HEADER_def drop_cr_def lit_def)

lemma csvCustomer_blank: "csvCustomer [] = None"
  by (simp add: csvCustomer_def trim_def)

lemma import_lines:
  "\<forall>r \<in> set rows. exportable numTruthy numToString r \<Longrightarrow>
   map customer_fields
     (List.map_filter csvCustomer
        (map drop_cr (map (csvLine numTruthy numToString) rows) @ [[]])) =
   map imported_fields rows"
proof (induction rows)
  case Nil
  show ?case by (simp add: csvCustomer_blank)
next
  case (Cons r rows)
  then have "exportable numTruthy numToString r" by simp
  from csvCustomer_csvLine [OF this] obtain c where
    "csvCustomer (drop_cr (csvLine numTruthy numToString r)) = Some c"
    "customer_fields c = imported_fields r"
    by auto
  with Cons show ?case by simp
qed

text \<open>
  C7 (as amended). Let the installation number, name, phone and address of the stored
  customers contain neither a semicolon nor a line feed (with numbers printed without a
  line feed, and the lower-case form of the fixed header containing \<open>tesisat\<close>). Then
  importing the text that \<open>exportCustomersAsCSV\<close> returns gives, for the first 50000
  stored customers (the limit of the export) and in their order, one customer each, with
  the same name and address, and with the installation number and the phone trimmed and
  without a surrounding double quote.
\<close>

theorem csv_round_trip:
  assumes header: "str_includes (toLowerCase CSV_HEADER) (lit ''tesisat'')"
    and rows: "\<forall>r \<in> set (take 50000 tbl). exportable numTruthy numToString r"
  shows "\<exists>csvText. exportCustomersAsCSV numTruthy numToString None tbl = Inr csvText \<and>
     map customer_fields (csvCustomers toLowerCase csvText) =
       map imported_fields (take 50000 tbl)"
proof -
  let ?rows = "take 50000 tbl"
  let ?line = "csvLine numTruthy numToString"
  let ?text = "CSV_HEADER @ [10] @ concat (map (\<lambda>l. l @ [10]) (map ?line ?rows))"
  have ex: "exportCustomersAsCSV numTruthy numToString None tbl = Inr ?text"
    by (simp add: exportCustomersAsCSV_def select_limit_def export_text comp_def)
  have "\<forall>l \<in> set (map ?line ?rows). 10 \<notin> set l"
    using rows csvLine_whole by auto
  then have "split_lines (concat (map (\<lambda>l. l @ [10]) (map ?line ?rows))) =
      map drop_cr (map ?line ?rows) @ [[]]"
    by (rule split_lines_export)
  with header_whole have lines:
    "split_lines ?text = CSV_HEADER # map drop_cr (map ?line ?rows) @ [[]]"
    using split_lines_line [of CSV_HEADER "concat (map (\<lambda>l. l @ [10]) (map ?line ?rows))"]
    by simp
  have "csvCustomers toLowerCase ?text =
      List.map_filter csvCustomer (map drop_cr (map ?line ?rows) @ [[]])"
    unfolding csvCustomers_def lines Let_def using header by simp
  with import_lines [OF rows] ex show ?thesis by simp
qed

theorem csv_round_trip_witness:
  "\<exists>csvText.
     exportCustomersAsCSV (\<lambda>n. n \<noteq> 0) decimal None
       [\<lparr>db_id = Some 1, installation_number = lit ''8'', db_name = lit '' Ali Veli'',
         db_phone = lit ''555 '', db_address = lit ''Main, St'', db_latitude = Some 41,
         db_longitude = None\<rparr>] = Inr csvText \<and>
     map customer_fields
       (csvCustomers (map (\<lambda>c. if 65 \<le> c \<and> c \<le> 90 then c + 32 else c)) csvText) =
       [(lit ''8'', lit '' Ali Veli'', lit ''555'', lit ''Main, St'')]"
proof -
  let ?row = "\<lparr>db_id = Some 1, installation_number = lit ''8'', db_name = lit '' Ali Veli'',
         db_phone = lit ''555 '', db_address = lit ''Main, St'', db_latitude = Some (41 :: nat),
         db_longitude = None\<rparr>"
  let ?lower = "map (\<lambda>c :: nat. if 65 \<le> c \<and> c \<le> 90 then c + 32 else c)"
  have h: "str_includes (?lower CSV_HEADER) (lit ''tesisat'')"
    by (simp add: CSV_HEADER_def lit_def)
  have e: "exportable (\<lambda>n. n \<noteq> 0) decimal ?row"
    by (simp add: exportable_def plain_field_def coordinateText_def decimal.simps lit_def)
  then have rows: "\<forall>r \<in> set (take 50000 [?row]). exportable (\<lambda>n. n \<noteq> 0) decimal r"
    by simp
  have i: "imported_fields ?row = (lit ''8'', lit '' Ali Veli'', lit ''555'', lit ''Main, St'')"
    by (simp add: imported_fields_def strip_quotes_def trim_def isWhiteSpace_def lit_def)
  from csv_round_trip [where toLowerCase = ?lower and tbl = "[?row]"
      and numTruthy = "\<lambda>n. n \<noteq> 0" and numToString = decimal, OF h rows]
  show ?thesis
    by (simp add: i)
qed

text \<open>
  The claim as stated fails for a name that contains the separator: the import cuts the
  line at every semicolon, also inside the quotes, so the name comes back cut and the
  following columns are shifted.
\<close>

theorem csv_round_trip_counterexample:
  "(case exportCustomersAsCSV (\<lambda>n. n \<noteq> 0) decimal None
       [\<lparr>db_id = Some 1, installation_number = lit ''7'', db_name = lit ''A;B'',
         db_phone = lit ''555'', db_address = lit ''Main'', db_latitude = Some 41,
         db_longitude = None\<rparr>] of
      Inl e \<Rightarrow> []
    | Inr csvText \<Rightarrow>
        map customer_fields
          (csvCustomers (map (\<lambda>c. if 65 \<le> c \<and> c \<le> 90 then c + 32 else c)) csvText)) =
     [(lit ''7'', lit ''A'', lit ''B'', lit ''555'')]"
  by (simp add: exportCustomersAsCSV_def select_limit_def csvLine_def quoted_def
      coordinateText_def CSV_HEADER_def csvCustomers_def csvCustomer_def col_or_empty_def
      customer_fields_def trim_def strip_quotes_def isWhiteSpace_def decimal.simps lit_def
      Let_def)

end
